theory Spec2Isabelle
  imports Main "HOL-Library.Word"
begin

section \<open>Data model of \<open>AtomCore/Instance/InstanceDatabase.h\<close>\<close>

text \<open>
  The header is a class template over types that are declared in other headers
  (\<open>InstanceId\<close>, \<open>AssetId\<close>, \<open>AssetType\<close>, \<open>AssetData\<close>). They stay type
  parameters here: \<open>'i\<close> is \<open>InstanceId\<close>, \<open>'a\<close> is \<open>AssetId\<close>, \<open>'t\<close> is \<open>AssetType\<close>
  and \<open>'d\<close> is the \<open>AssetData\<close> object an asset handle points to. An instance pointer
  (\<open>Type*\<close>, \<open>InstanceData*\<close>) is an address.
\<close>

type_synonym ptr = nat

text \<open>
  An \<open>Asset<AssetData>\<close> handle, by the four observations the database makes of it:
  \<open>GetId()\<close>, \<open>GetType()\<close>, \<open>IsReady()\<close> and \<open>Get()\<close>.
\<close>

record ('a, 't, 'd) Asset =
  GetId :: 'a
  GetType :: 't
  IsReady :: bool
  Get :: 'd

text \<open>
  The fields of \<open>InstanceData\<close> that the database reads and writes: \<open>m_id\<close>,
  \<open>m_parentDatabase\<close>, \<open>m_assetId\<close>, \<open>m_assetType\<close> and the atomic \<open>int32_t\<close>
  counter \<open>m_useCount\<close>, a 32-bit word read as signed.
\<close>

record ('i, 'a, 't) InstanceData =
  m_id :: 'i
  m_parentDatabase :: "ptr option"
  m_assetId :: 'a
  m_assetType :: 't
  m_useCount :: "32 word"

text \<open>
  \<open>InstanceHandler<Type>\<close>. The create function is an \<open>AZStd::function\<close>, which may be
  empty (\<open>None\<close>); called on the asset data it returns an \<open>Instance<Type>\<close>, which may
  be null (\<open>None\<close>), and otherwise the object it allocated and initialised. A delete
  function is known by its identity: the default \<open>delete t\<close> or a function of the user.
  Calling either one ends the lifetime of the object as far as the database can see.
\<close>

datatype DeleteFunction = default_delete | user_delete nat

record ('i, 'a, 't, 'd) InstanceHandler =
  m_createFunction :: "('d \<Rightarrow> ('i, 'a, 't) InstanceData option) option"
  m_deleteFunction :: DeleteFunction

text \<open>The two mutexes of the class.\<close>

datatype Mutex = m_handlersMutex | m_databaseMutex

text \<open>
  What a call does beyond changing the members of the class is recorded, in order, in a
  trace: taking a lock, the blocking load of the asset manager, a call of a handler's
  create or delete function, and the diagnostics of \<open>AZ_Assert\<close>, \<open>AZ_Error\<close> and
  \<open>AZ_Warning\<close> with their format strings.
\<close>

datatype ('a, 't) Event =
    shared_lock Mutex
  | unique_lock Mutex
  | GetAsset 'a 't
  | CreateCall 't "ptr option"
  | DeleteCall DeleteFunction ptr
  | Assert string
  | Error string
  | Warning string

text \<open>
  The state: the members \<open>m_handlers\<close>, \<open>m_database\<close> and \<open>m_baseAssetType\<close> of the
  database at address \<open>this\<close>, the live instance objects (\<open>heap\<close>), the next address
  the allocator hands out (\<open>brk\<close>), and the trace.
\<close>

record ('i, 'a, 't, 'd) State =
  m_handlers :: "'t \<rightharpoonup> ('i, 'a, 't, 'd) InstanceHandler"
  m_database :: "'i \<rightharpoonup> ptr"
  m_baseAssetType :: 't
  this :: ptr
  heap :: "ptr \<rightharpoonup> ('i, 'a, 't) InstanceData"
  brk :: ptr
  trace :: "('a, 't) Event list"

text \<open>
  The collaborators whose code is in other headers are parameters of the model:
  \<open>InstanceId::IsValid\<close>, \<open>AssetManager::GetAsset\<close> with \<open>queueLoadData\<close> and
  \<open>loadBlocking\<close> set (the handle the blocking load returns for an id and a type),
  \<open>azrtti_istypeof\<close>, and the two build switches: \<open>AZ_DEBUG_BUILD\<close>, and whether the
  trace macros are compiled in. \<open>InstanceId::CreateRandom\<close> is not a function of
  anything: the id it returned is an argument of \<open>Create\<close> below.
\<close>

text \<open>
  Modelled from the spec: \<open>InstanceId::CreateFromAssetId\<close>, whose code is in
  \<open>InstanceId.h\<close>. The spec has the key "derived deterministically from an asset identity
  (same asset \<open>\<Rightarrow>\<close> same key)": the field \<open>CreateFromAssetId\<close> is a function of the asset id.
\<close>

record ('i, 'a, 't, 'd) Env =
  IsValid :: "'i \<Rightarrow> bool"
  CreateFromAssetId :: "'a \<Rightarrow> 'i"
  AssetManager_GetAsset :: "'a \<Rightarrow> 't \<Rightarrow> ('a, 't, 'd) Asset"
  azrtti_istypeof :: "'t \<Rightarrow> 'd \<Rightarrow> bool"
  AZ_DEBUG_BUILD :: bool
  AZ_ENABLE_TRACING :: bool

text \<open>
  Reading through a pointer to an object whose lifetime has ended, and calling an empty
  \<open>AZStd::function\<close>, are not results of the C++ code; the model returns them as faults.
\<close>

datatype Fault = BadFunctionCall | DanglingInstance ptr

section \<open>Operations\<close>

definition emit :: "('a, 't) Event \<Rightarrow> ('i, 'a, 't, 'd) State \<Rightarrow> ('i, 'a, 't, 'd) State" where
  "emit e s = s\<lparr>trace := trace s @ [e]\<rparr>"

text \<open>
  The trace macros report where they are compiled in and their expression is false, and
  the call goes on after them: \<open>FindOrCreate\<close> returns \<open>nullptr\<close> after its
  \<open>AZ_Assert(false, ...)\<close>.
\<close>

definition AZ_Assert ::
  "('i, 'a, 't, 'd) Env \<Rightarrow> bool \<Rightarrow> string \<Rightarrow> ('i, 'a, 't, 'd) State \<Rightarrow> ('i, 'a, 't, 'd) State" where
  "AZ_Assert E expression message s =
     (if AZ_ENABLE_TRACING E \<and> \<not> expression then emit (Assert message) s else s)"

definition AZ_Error ::
  "('i, 'a, 't, 'd) Env \<Rightarrow> bool \<Rightarrow> string \<Rightarrow> ('i, 'a, 't, 'd) State \<Rightarrow> ('i, 'a, 't, 'd) State" where
  "AZ_Error E expression message s =
     (if AZ_ENABLE_TRACING E \<and> \<not> expression then emit (Error message) s else s)"

definition AZ_Warning ::
  "('i, 'a, 't, 'd) Env \<Rightarrow> bool \<Rightarrow> string \<Rightarrow> ('i, 'a, 't, 'd) State \<Rightarrow> ('i, 'a, 't, 'd) State" where
  "AZ_Warning E expression message s =
     (if AZ_ENABLE_TRACING E \<and> \<not> expression then emit (Warning message) s else s)"

text \<open>\<open>unordered_map::emplace\<close>: inserts only where the key is absent.\<close>

definition emplace :: "('k \<rightharpoonup> 'v) \<Rightarrow> 'k \<Rightarrow> 'v \<Rightarrow> ('k \<rightharpoonup> 'v)" where
  "emplace m k v = (if m k = None then m(k \<mapsto> v) else m)"

text \<open>The constructor \<open>InstanceDatabase(assetType)\<close>, for a database allocated at \<open>addr\<close>.\<close>

definition InstanceDatabase :: "ptr \<Rightarrow> 't \<Rightarrow> ('i, 'a, 't, 'd) State" where
  "InstanceDatabase addr assetType =
     \<lparr>m_handlers = Map.empty, m_database = Map.empty, m_baseAssetType = assetType,
      this = addr, heap = Map.empty, brk = 0, trace = []\<rparr>"

definition AddHandler ::
  "('i, 'a, 't, 'd) Env \<Rightarrow> 't \<Rightarrow> ('i, 'a, 't, 'd) InstanceHandler \<Rightarrow>
   ('i, 'a, 't, 'd) State \<Rightarrow> ('i, 'a, 't, 'd) State" where
  "AddHandler E assetType handler s =
     (let s1 = AZ_Assert E (m_createFunction handler \<noteq> None)
                 ''You are required to provide a create function to InstanceDatabase.'' s;
          s2 = emit (unique_lock m_handlersMutex) s1;
          result_second = (m_handlers s2 assetType = None);
          s3 = s2\<lparr>m_handlers := emplace (m_handlers s2) assetType handler\<rparr>
      in AZ_Assert E result_second ''An InstanceHandler already exists for this AssetType'' s3)"

definition AddHandler_createFunction ::
  "('i, 'a, 't, 'd) Env \<Rightarrow> 't \<Rightarrow> ('d \<Rightarrow> ('i, 'a, 't) InstanceData option) option \<Rightarrow>
   ('i, 'a, 't, 'd) State \<Rightarrow> ('i, 'a, 't, 'd) State" where
  "AddHandler_createFunction E assetType createFunction s =
     AddHandler E assetType
       \<lparr>m_createFunction = createFunction, m_deleteFunction = default_delete\<rparr> s"

definition RemoveHandler :: "'t \<Rightarrow> ('i, 'a, 't, 'd) State \<Rightarrow> ('i, 'a, 't, 'd) State" where
  "RemoveHandler assetType s =
     (let s1 = emit (unique_lock m_handlersMutex) s
      in s1\<lparr>m_handlers := (m_handlers s1)(assetType := None)\<rparr>)"

text \<open>\<open>FindHandler\<close>: the \<open>bool\<close> and the out-parameter together are an option.\<close>

definition FindHandler ::
  "'t \<Rightarrow> ('i, 'a, 't, 'd) State \<Rightarrow>
   ('i, 'a, 't, 'd) InstanceHandler option \<times> ('i, 'a, 't, 'd) State" where
  "FindHandler assetType s =
     (let s1 = emit (shared_lock m_handlersMutex) s
      in (m_handlers s1 assetType, s1))"

definition Find :: "'i \<Rightarrow> ('i, 'a, 't, 'd) State \<Rightarrow> ptr option \<times> ('i, 'a, 't, 'd) State" where
  "Find ident s =
     (let s1 = emit (shared_lock m_databaseMutex) s
      in (m_database s1 ident, s1))"

definition ValidateSameAsset ::
  "('i, 'a, 't, 'd) Env \<Rightarrow> ptr \<Rightarrow> ('a, 't, 'd) Asset \<Rightarrow> ('i, 'a, 't, 'd) State \<Rightarrow>
   Fault + ('i, 'a, 't, 'd) State" where
  "ValidateSameAsset E instance asset s =
     (if AZ_DEBUG_BUILD E then
        (case heap s instance of
           None \<Rightarrow> Inl (DanglingInstance instance)
         | Some obj \<Rightarrow>
             Inr (AZ_Error E (m_assetId obj = GetId asset)
                    ''InstanceDatabase::FindOrCreate found the requested instance, but a different asset was used to create it.''
                    s))
      else Inr s)"

text \<open>
  The end of \<open>FindOrCreate\<close> ("Emplace a new instance and return it"), reached with the
  unique lock held and \<open>ident\<close> not found.
\<close>

definition FindOrCreate_emplace ::
  "('i, 'a, 't, 'd) Env \<Rightarrow> 'i \<Rightarrow> ('a, 't, 'd) Asset \<Rightarrow> ('i, 'a, 't, 'd) State \<Rightarrow>
   Fault + (ptr option \<times> ('i, 'a, 't, 'd) State)" where
  "FindOrCreate_emplace E ident assetLocal s =
     (case FindHandler (GetType assetLocal) s of
        (None, s1) \<Rightarrow>
          Inr (None, AZ_Warning E False ''No InstanceHandler found for asset type %s'' s1)
      | (Some instanceHandler, s1) \<Rightarrow>
          (case m_createFunction instanceHandler of
             None \<Rightarrow> Inl BadFunctionCall
           | Some createFunction \<Rightarrow>
               (case createFunction (Get assetLocal) of
                  None \<Rightarrow> Inr (None, emit (CreateCall (GetType assetLocal) None) s1)
                | Some obj \<Rightarrow>
                    (let instance = brk s1;
                         s2 = emit (CreateCall (GetType assetLocal) (Some instance)) s1;
                         stamped = obj\<lparr>m_id := ident,
                                       m_parentDatabase := Some (this s2),
                                       m_assetId := GetId assetLocal,
                                       m_assetType := GetType assetLocal\<rparr>
                     in Inr (Some instance,
                             s2\<lparr>heap := (heap s2)(instance \<mapsto> stamped),
                                brk := Suc instance,
                                m_database := emplace (m_database s2) ident instance\<rparr>)))))"

text \<open>"Take a full lock for insertion. Search again in case someone else got here first."\<close>

definition FindOrCreate_locked ::
  "('i, 'a, 't, 'd) Env \<Rightarrow> 'i \<Rightarrow> ('a, 't, 'd) Asset \<Rightarrow> ('a, 't, 'd) Asset \<Rightarrow>
   ('i, 'a, 't, 'd) State \<Rightarrow> Fault + (ptr option \<times> ('i, 'a, 't, 'd) State)" where
  "FindOrCreate_locked E ident asset assetLocal s =
     (let s1 = emit (unique_lock m_databaseMutex) s
      in case m_database s1 ident of
           Some instance \<Rightarrow>
             (case ValidateSameAsset E instance asset s1 of
                Inl f \<Rightarrow> Inl f
              | Inr s2 \<Rightarrow> Inr (Some instance, s2))
         | None \<Rightarrow> FindOrCreate_emplace E ident assetLocal s1)"

text \<open>
  The check of the loaded asset against \<open>m_baseAssetType\<close>: \<open>True\<close> with the handler
  found when the call has to return \<open>nullptr\<close>.
\<close>

definition FindOrCreate_typecheck ::
  "('i, 'a, 't, 'd) Env \<Rightarrow> ('a, 't, 'd) Asset \<Rightarrow> ('i, 'a, 't, 'd) State \<Rightarrow>
   bool \<times> ('i, 'a, 't, 'd) State" where
  "FindOrCreate_typecheck E assetLocal s =
     (if \<not> azrtti_istypeof E (m_baseAssetType s) (Get assetLocal) then
        (case FindHandler (GetType assetLocal) s of
           (Some instanceHandler, s1) \<Rightarrow>
             (True,
              AZ_Assert E False
                ''An InstanceHandler was added for asset type %s which is not a subclass of the base asset type %s.''
                s1)
         | (None, s1) \<Rightarrow> (False, s1))
      else (False, s))"

text \<open>"Take a reference so we can mutate it": the local asset and the blocking load.\<close>

definition FindOrCreate_load ::
  "('i, 'a, 't, 'd) Env \<Rightarrow> ('a, 't, 'd) Asset \<Rightarrow> ('i, 'a, 't, 'd) State \<Rightarrow>
   ('a, 't, 'd) Asset \<times> ('i, 'a, 't, 'd) State" where
  "FindOrCreate_load E asset s =
     (if \<not> IsReady asset then
        (AssetManager_GetAsset E (GetId asset) (GetType asset),
         emit (GetAsset (GetId asset) (GetType asset)) s)
      else (asset, s))"

definition FindOrCreate ::
  "('i, 'a, 't, 'd) Env \<Rightarrow> 'i \<Rightarrow> ('a, 't, 'd) Asset \<Rightarrow> ('i, 'a, 't, 'd) State \<Rightarrow>
   Fault + (ptr option \<times> ('i, 'a, 't, 'd) State)" where
  "FindOrCreate E ident asset s =
     (if \<not> IsValid E ident then Inr (None, s)
      else
        (let s1 = emit (shared_lock m_databaseMutex) s
         in case m_database s1 ident of
              Some instance \<Rightarrow>
                (case ValidateSameAsset E instance asset s1 of
                   Inl f \<Rightarrow> Inl f
                 | Inr s2 \<Rightarrow> Inr (Some instance, s2))
            | None \<Rightarrow>
                (case FindOrCreate_load E asset s1 of
                   (assetLocal, s2) \<Rightarrow>
                     if \<not> IsReady assetLocal then Inr (None, s2)
                     else
                       (case FindOrCreate_typecheck E assetLocal s2 of
                          (True, s3) \<Rightarrow> Inr (None, s3)
                        | (False, s3) \<Rightarrow> FindOrCreate_locked E ident asset assetLocal s3))))"

text \<open>\<open>FindOrCreate(asset)\<close>: the overload that makes the id from the asset's id.\<close>

definition FindOrCreate_asset ::
  "('i, 'a, 't, 'd) Env \<Rightarrow> ('a, 't, 'd) Asset \<Rightarrow> ('i, 'a, 't, 'd) State \<Rightarrow>
   Fault + (ptr option \<times> ('i, 'a, 't, 'd) State)" where
  "FindOrCreate_asset E asset s = FindOrCreate E (CreateFromAssetId E (GetId asset)) asset s"

text \<open>\<open>Create(asset)\<close>; \<open>random\<close> is what \<open>InstanceId::CreateRandom()\<close> returned.\<close>

definition Create ::
  "('i, 'a, 't, 'd) Env \<Rightarrow> 'i \<Rightarrow> ('a, 't, 'd) Asset \<Rightarrow> ('i, 'a, 't, 'd) State \<Rightarrow>
   Fault + (ptr option \<times> ('i, 'a, 't, 'd) State)" where
  "Create E random asset s = FindOrCreate E random asset s"

text \<open>
  \<open>ReleaseInstance\<close>. The \<open>compare_exchange_strong\<close> of \<open>m_useCount\<close> from 0 to -1
  succeeds exactly when the counter is 0; where it fails only the local
  \<open>expectedRefCount\<close> changes. The entry erased is the one of \<open>instance->GetId()\<close>.
\<close>

definition ReleaseInstance ::
  "('i, 'a, 't, 'd) Env \<Rightarrow> ptr \<Rightarrow> 'i \<Rightarrow> ('i, 'a, 't, 'd) State \<Rightarrow>
   Fault + ('i, 'a, 't, 'd) State" where
  "ReleaseInstance E instance instanceId s =
     (let s1 = emit (unique_lock m_databaseMutex) s
      in if m_database s1 instanceId \<noteq> Some instance then Inr s1
         else
           (case heap s1 instance of
              None \<Rightarrow> Inl (DanglingInstance instance)
            | Some obj \<Rightarrow>
                if m_useCount obj \<noteq> 0 then Inr s1
                else
                  (let obj' = obj\<lparr>m_useCount := - 1\<rparr>;
                       s2 = s1\<lparr>heap := (heap s1)(instance \<mapsto> obj')\<rparr>;
                       s3 = s2\<lparr>m_database := (m_database s2)(m_id obj' := None)\<rparr>
                   in case FindHandler (m_assetType obj') s3 of
                        (Some instanceHandler, s4) \<Rightarrow>
                          Inr ((emit (DeleteCall (m_deleteFunction instanceHandler) instance) s4)
                                 \<lparr>heap := (heap s4)(instance := None)\<rparr>)
                      | (None, s4) \<Rightarrow>
                          Inr (AZ_Assert E False
                                 ''Cannot delete Instance. No InstanceHandler found for asset type %s''
                                 s4))))"

section \<open>Threads calling \<open>FindOrCreate\<close>\<close>

text \<open>
  A call of \<open>FindOrCreate\<close> runs in four sections, each atomic with respect to the
  members it reads and writes: the lookup under the shared lock of \<open>m_databaseMutex\<close>,
  the load (no lock held), the type check (\<open>FindHandler\<close> under the shared lock of
  \<open>m_handlersMutex\<close>), and the insertion under the unique lock of \<open>m_databaseMutex\<close>.
  A thread is where its call stands, with the locals \<open>id\<close>, \<open>asset\<close> and \<open>assetLocal\<close>.
\<close>

datatype ('i, 'a, 't, 'd) Thread =
    at_entry 'i "('a, 't, 'd) Asset"
  | at_load 'i "('a, 't, 'd) Asset"
  | at_typecheck 'i "('a, 't, 'd) Asset" "('a, 't, 'd) Asset"
  | at_lock 'i "('a, 't, 'd) Asset" "('a, 't, 'd) Asset"
  | returned "ptr option"

fun thread_step ::
  "('i, 'a, 't, 'd) Env \<Rightarrow> ('i, 'a, 't, 'd) Thread \<Rightarrow> ('i, 'a, 't, 'd) State \<Rightarrow>
   Fault + (('i, 'a, 't, 'd) Thread \<times> ('i, 'a, 't, 'd) State)" where
  "thread_step E (at_entry ident asset) s =
     (if \<not> IsValid E ident then Inr (returned None, s)
      else
        (let s1 = emit (shared_lock m_databaseMutex) s
         in case m_database s1 ident of
              Some instance \<Rightarrow>
                (case ValidateSameAsset E instance asset s1 of
                   Inl f \<Rightarrow> Inl f
                 | Inr s2 \<Rightarrow> Inr (returned (Some instance), s2))
            | None \<Rightarrow> Inr (at_load ident asset, s1)))"
| "thread_step E (at_load ident asset) s =
     (case FindOrCreate_load E asset s of
        (assetLocal, s2) \<Rightarrow>
          if \<not> IsReady assetLocal then Inr (returned None, s2)
          else Inr (at_typecheck ident asset assetLocal, s2))"
| "thread_step E (at_typecheck ident asset assetLocal) s =
     (case FindOrCreate_typecheck E assetLocal s of
        (True, s3) \<Rightarrow> Inr (returned None, s3)
      | (False, s3) \<Rightarrow> Inr (at_lock ident asset assetLocal, s3))"
| "thread_step E (at_lock ident asset assetLocal) s =
     (case FindOrCreate_locked E ident asset assetLocal s of
        Inl f \<Rightarrow> Inl f
      | Inr (r, s') \<Rightarrow> Inr (returned r, s'))"
| "thread_step E (returned r) s = Inr (returned r, s)"

text \<open>
  A schedule is the list of the threads that run, one section each, in order; a thread
  that has returned, or an index that is no thread, does nothing.
\<close>

definition sched_step ::
  "('i, 'a, 't, 'd) Env \<Rightarrow> nat \<Rightarrow> ('i, 'a, 't, 'd) Thread list \<times> ('i, 'a, 't, 'd) State \<Rightarrow>
   Fault + (('i, 'a, 't, 'd) Thread list \<times> ('i, 'a, 't, 'd) State)" where
  "sched_step E i c =
     (case c of (ts, s) \<Rightarrow>
        if i < length ts then
          (case thread_step E (ts ! i) s of
             Inl f \<Rightarrow> Inl f
           | Inr (t', s') \<Rightarrow> Inr (ts[i := t'], s'))
        else Inr (ts, s))"

fun run ::
  "('i, 'a, 't, 'd) Env \<Rightarrow> nat list \<Rightarrow> ('i, 'a, 't, 'd) Thread list \<times> ('i, 'a, 't, 'd) State \<Rightarrow>
   Fault + (('i, 'a, 't, 'd) Thread list \<times> ('i, 'a, 't, 'd) State)" where
  "run E [] c = Inr c"
| "run E (i # sched) c =
     (case sched_step E i c of
        Inl f \<Rightarrow> Inl f
      | Inr c' \<Rightarrow> run E sched c')"

text \<open>How far a thread is: the number of sections it has left behind, 4 once it returned.\<close>

fun rank :: "('i, 'a, 't, 'd) Thread \<Rightarrow> nat" where
  "rank (at_entry ident asset) = 0"
| "rank (at_load ident asset) = 1"
| "rank (at_typecheck ident asset assetLocal) = 2"
| "rank (at_lock ident asset assetLocal) = 3"
| "rank (returned r) = 4"

section \<open>Reachable states and their invariant\<close>

text \<open>The calls of create functions and of delete functions that a trace records.\<close>

fun created :: "('a, 't) Event list \<Rightarrow> nat" where
  "created [] = 0"
| "created (CreateCall t r # es) = Suc (created es)"
| "created (e # es) = created es"

fun deleted :: "('a, 't) Event list \<Rightarrow> ptr list" where
  "deleted [] = []"
| "deleted (DeleteCall f p # es) = p # deleted es"
| "deleted (e # es) = deleted es"

text \<open>
  The handles (\<open>Instance<Type>\<close>, whose code is in other headers) count themselves in
  \<open>m_useCount\<close> of a live instance; a handle copied or dropped stores a new count.
\<close>

definition store_useCount ::
  "ptr \<Rightarrow> 32 word \<Rightarrow> ('i, 'a, 't, 'd) State \<Rightarrow> ('i, 'a, 't, 'd) State" where
  "store_useCount instance c s =
     (case heap s instance of
        None \<Rightarrow> s
      | Some obj \<Rightarrow> s\<lparr>heap := (heap s)(instance \<mapsto> obj\<lparr>m_useCount := c\<rparr>)\<rparr>)"

text \<open>
  The states a database goes through: constructed, then any sequence of calls of its
  operations that return, and of count changes by the handles. \<open>FindOrCreate(asset)\<close>
  and \<open>Create(asset)\<close> are calls of \<open>FindOrCreate\<close>, and the second \<open>AddHandler\<close> is a
  call of the first.
\<close>

inductive reachable :: "('i, 'a, 't, 'd) Env \<Rightarrow> ('i, 'a, 't, 'd) State \<Rightarrow> bool"
  for E :: "('i, 'a, 't, 'd) Env" where
    constructed: "reachable E (InstanceDatabase addr assetType)"
  | after_AddHandler: "reachable E s \<Longrightarrow> reachable E (AddHandler E assetType handler s)"
  | after_RemoveHandler: "reachable E s \<Longrightarrow> reachable E (RemoveHandler assetType s)"
  | after_Find: "reachable E s \<Longrightarrow> reachable E (snd (Find ident s))"
  | after_FindOrCreate:
      "reachable E s \<Longrightarrow> FindOrCreate E ident asset s = Inr (r, s') \<Longrightarrow> reachable E s'"
  | after_ReleaseInstance:
      "reachable E s \<Longrightarrow> ReleaseInstance E instance instanceId s = Inr s' \<Longrightarrow> reachable E s'"
  | after_store_useCount: "reachable E s \<Longrightarrow> reachable E (store_useCount instance c s)"

text \<open>
  The invariant: every key of the table is valid and maps to a live instance stamped
  with that key; live instances lie below the allocator's next address; and the
  instances handed to a delete function are pairwise different, no longer live, and
  below the next address as well.
\<close>

definition consistent :: "('i, 'a, 't, 'd) Env \<Rightarrow> ('i, 'a, 't, 'd) State \<Rightarrow> bool" where
  "consistent E s \<longleftrightarrow>
     (\<forall>k p. m_database s k = Some p \<longrightarrow>
        IsValid E k \<and> (\<exists>obj. heap s p = Some obj \<and> m_id obj = k)) \<and>
     (\<forall>p obj. heap s p = Some obj \<longrightarrow> p < brk s) \<and>
     distinct (deleted (trace s)) \<and>
     (\<forall>p \<in> set (deleted (trace s)). p < brk s \<and> heap s p = None)"

text \<open>
  Two states with the same members, the same objects and the same calls of delete
  functions: what a call leaves when it only takes locks, loads, or reports.
\<close>

definition same_objects :: "('i, 'a, 't, 'd) State \<Rightarrow> ('i, 'a, 't, 'd) State \<Rightarrow> bool" where
  "same_objects s s' \<longleftrightarrow>
     m_handlers s' = m_handlers s \<and> m_database s' = m_database s \<and>
     m_baseAssetType s' = m_baseAssetType s \<and> this s' = this s \<and>
     heap s' = heap s \<and> brk s' = brk s \<and>
     deleted (trace s') = deleted (trace s)"

text \<open>The stamp that \<open>FindOrCreate\<close> puts on a new instance.\<close>

definition stamp ::
  "'i \<Rightarrow> ptr \<Rightarrow> ('a, 't, 'd) Asset \<Rightarrow> ('i, 'a, 't) InstanceData \<Rightarrow> ('i, 'a, 't) InstanceData" where
  "stamp ident db assetLocal obj =
     obj\<lparr>m_id := ident, m_parentDatabase := Some db,
         m_assetId := GetId assetLocal, m_assetType := GetType assetLocal\<rparr>"

text \<open>
  What a construction by \<open>FindOrCreate\<close> for the key \<open>k\<close> and the loaded asset changes:
  one call of a create function, the new instance at the allocator's next address,
  stamped, and the entry for \<open>k\<close>.
\<close>

definition constructed_by ::
  "'i \<Rightarrow> ('a, 't, 'd) Asset \<Rightarrow> ('i, 'a, 't, 'd) State \<Rightarrow> ('i, 'a, 't, 'd) State \<Rightarrow> bool" where
  "constructed_by k assetLocal s s' \<longleftrightarrow>
     m_database s k = None \<and>
     m_handlers s' = m_handlers s \<and> m_baseAssetType s' = m_baseAssetType s \<and>
     this s' = this s \<and> brk s' = Suc (brk s) \<and>
     m_database s' = (m_database s)(k \<mapsto> brk s) \<and>
     (\<exists>obj. heap s' = (heap s)(brk s \<mapsto> stamp k (this s) assetLocal obj)) \<and>
     created (trace s') = Suc (created (trace s)) \<and>
     deleted (trace s') = deleted (trace s)"

text \<open>
  A race for the key \<open>k\<close> with the asset \<open>a\<close>. \<open>constructible\<close> is the state in which a
  call of \<open>FindOrCreate(k, a)\<close> has to construct and can: the key is valid and not in
  the table, the asset is loaded or loads, its data is of the base asset type, and a
  handler is registered for its type whose create function returns an instance.
\<close>

definition constructible ::
  "('i, 'a, 't, 'd) Env \<Rightarrow> 'i \<Rightarrow> ('a, 't, 'd) Asset \<Rightarrow> ('i, 'a, 't, 'd) State \<Rightarrow> bool" where
  "constructible E k a s \<longleftrightarrow>
     IsValid E k \<and> m_database s k = None \<and>
     IsReady (fst (FindOrCreate_load E a s)) \<and>
     azrtti_istypeof E (m_baseAssetType s) (Get (fst (FindOrCreate_load E a s))) \<and>
     (\<exists>h c obj. m_handlers s (GetType (fst (FindOrCreate_load E a s))) = Some h \<and>
        m_createFunction h = Some c \<and> c (Get (fst (FindOrCreate_load E a s))) = Some obj)"

text \<open>
  What holds of the threads \<open>ts\<close> and the state \<open>s\<close> all through a race that started in
  \<open>s0\<close>: every thread is in the call \<open>FindOrCreate(k, a)\<close>; as long as the key is not in
  the table no create function was called and no thread has returned; once it is, one
  create function was called, and every thread that has returned has returned the
  instance of the table.
\<close>

definition race_inv ::
  "('i, 'a, 't, 'd) Env \<Rightarrow> 'i \<Rightarrow> ('a, 't, 'd) Asset \<Rightarrow> ('i, 'a, 't, 'd) State \<Rightarrow>
   ('i, 'a, 't, 'd) Thread list \<Rightarrow> ('i, 'a, 't, 'd) State \<Rightarrow> bool" where
  "race_inv E k a s0 ts s \<longleftrightarrow>
     m_handlers s = m_handlers s0 \<and> m_baseAssetType s = m_baseAssetType s0 \<and>
     (\<forall>t \<in> set ts.
        t = at_entry k a \<or> t = at_load k a \<or>
        t = at_typecheck k a (fst (FindOrCreate_load E a s0)) \<or>
        t = at_lock k a (fst (FindOrCreate_load E a s0)) \<or>
        (\<exists>r. t = returned r)) \<and>
     (case m_database s k of
        None \<Rightarrow> created (trace s) = created (trace s0) \<and> (\<forall>t \<in> set ts. rank t < 4)
      | Some p \<Rightarrow>
          heap s p \<noteq> None \<and> created (trace s) = Suc (created (trace s0)) \<and>
          (\<forall>t \<in> set ts. rank t = 4 \<longrightarrow> t = returned (Some p)))"

text \<open>
  What one section of a thread, from \<open>t\<close> in \<open>s\<close> to \<open>t'\<close> in \<open>s'\<close>, does in a race for
  \<open>k\<close>: the thread moves on; an entry of \<open>k\<close> stays; and where there was none, either
  there is none still and nothing was created, or the thread has created the instance,
  inserted it and returned it.
\<close>

definition race_step ::
  "'i \<Rightarrow> ('i, 'a, 't, 'd) Thread \<Rightarrow> ('i, 'a, 't, 'd) State \<Rightarrow>
   ('i, 'a, 't, 'd) Thread \<Rightarrow> ('i, 'a, 't, 'd) State \<Rightarrow> bool" where
  "race_step k t s t' s' \<longleftrightarrow>
     m_handlers s' = m_handlers s \<and> m_baseAssetType s' = m_baseAssetType s \<and>
     min 4 (Suc (rank t)) \<le> rank t' \<and>
     (case m_database s k of
        Some p \<Rightarrow>
          m_database s' k = Some p \<and> heap s' p \<noteq> None \<and>
          created (trace s') = created (trace s) \<and>
          (rank t' = 4 \<longrightarrow> t' = returned (Some p) \<or> t' = t)
      | None \<Rightarrow>
          (m_database s' k = None \<and> created (trace s') = created (trace s) \<and>
           (rank t' < 4 \<or> t' = t)) \<or>
          (\<exists>p. m_database s' k = Some p \<and> heap s' p \<noteq> None \<and>
               created (trace s') = Suc (created (trace s)) \<and> t' = returned (Some p)))"

section \<open>A configuration to run the operations on\<close>

text \<open>
  Ids, types and asset data are numbers. Id 0 is the invalid id; the asset manager
  loads the assets with an id below 100; asset type \<open>t\<close> derives from \<open>b\<close> when \<open>b\<close>
  divides it. A debug build with tracing.
\<close>

definition Env0 :: "(nat, nat, nat, nat) Env" where
  "Env0 =
     \<lparr>IsValid = (\<lambda>i. i \<noteq> 0),
      CreateFromAssetId = (\<lambda>a. Suc a),
      AssetManager_GetAsset = (\<lambda>a t. \<lparr>GetId = a, GetType = t, IsReady = (a < 100), Get = t\<rparr>),
      azrtti_istypeof = (\<lambda>b d. b dvd d),
      AZ_DEBUG_BUILD = True,
      AZ_ENABLE_TRACING = True\<rparr>"

definition Instance0 :: "(nat, nat, nat) InstanceData" where
  "Instance0 =
     \<lparr>m_id = 0, m_parentDatabase = None, m_assetId = 0, m_assetType = 0, m_useCount = 0\<rparr>"

definition Handler0 :: "(nat, nat, nat, nat) InstanceHandler" where
  "Handler0 =
     \<lparr>m_createFunction = Some (\<lambda>d. if d = 26 then None else Some Instance0),
      m_deleteFunction = default_delete\<rparr>"

definition Handler1 :: "(nat, nat, nat, nat) InstanceHandler" where
  "Handler1 = \<lparr>m_createFunction = Some (\<lambda>d. None), m_deleteFunction = user_delete 1\<rparr>"

definition Asset0 :: "(nat, nat, nat) Asset" where
  "Asset0 = \<lparr>GetId = 5, GetType = 6, IsReady = False, Get = 0\<rparr>"

definition Database0 :: "(nat, nat, nat, nat) State" where
  "Database0 = AddHandler Env0 6 Handler0 (InstanceDatabase 4096 2)"

text \<open>
  \<open>Database1\<close> is \<open>Database0\<close> after \<open>FindOrCreate(3, Asset0)\<close> has constructed instance 0.
  \<open>Env1\<close> is the release build, and \<open>Asset1\<close> an asset that cannot be loaded, of a type
  that is no subtype of the base type 2 and has no handler.
\<close>

definition Database1 :: "(nat, nat, nat, nat) State" where
  "Database1 =
     Database0
       \<lparr>m_database := [3 \<mapsto> 0],
        heap := [0 \<mapsto> stamp 3 4096 \<lparr>GetId = 5, GetType = 6, IsReady = True, Get = 6::nat\<rparr> Instance0],
        brk := 1,
        trace := trace Database0 @
          [shared_lock m_databaseMutex, GetAsset 5 6, unique_lock m_databaseMutex,
           shared_lock m_handlersMutex, CreateCall 6 (Some 0)]\<rparr>"

definition Env1 :: "(nat, nat, nat, nat) Env" where
  "Env1 = Env0\<lparr>AZ_DEBUG_BUILD := False, AZ_ENABLE_TRACING := False\<rparr>"

definition Asset1 :: "(nat, nat, nat) Asset" where
  "Asset1 = \<lparr>GetId = 200, GetType = 9, IsReady = False, Get = 9\<rparr>"

text \<open>
  \<open>Asset2\<close> is loaded and of type 9, which has no handler; \<open>Asset3\<close> is loaded and of
  type 6, with the data for which the create function of \<open>Handler0\<close> returns null.
\<close>

definition Asset2 :: "(nat, nat, nat) Asset" where
  "Asset2 = \<lparr>GetId = 7, GetType = 9, IsReady = True, Get = 9\<rparr>"

definition Asset3 :: "(nat, nat, nat) Asset" where
  "Asset3 = \<lparr>GetId = 8, GetType = 6, IsReady = True, Get = 26\<rparr>"

text \<open>
  \<open>Database4\<close> is \<open>Database1\<close> with a handler for type 15, which does not derive from
  the base type 2, and \<open>Asset4\<close> an asset of that type, to be loaded.
\<close>

definition Database4 :: "(nat, nat, nat, nat) State" where
  "Database4 = AddHandler Env0 15 Handler0 Database1"

definition Asset4 :: "(nat, nat, nat) Asset" where
  "Asset4 = \<lparr>GetId = 9, GetType = 15, IsReady = False, Get = 0\<rparr>"

text \<open>
  \<open>Database5\<close> is \<open>Database1\<close> after a thread in \<open>FindOrCreate(4, Asset2)\<close> has run its
  sections up to the type check, which found no handler for type 9. \<open>Database6\<close> is the
  state after \<open>AddHandler(9, Handler0)\<close>, called by another thread at that point, and then
  the last section of the first thread.
\<close>

definition Database5 :: "(nat, nat, nat, nat) State" where
  "Database5 =
     Database1\<lparr>trace := trace Database1 @
       [shared_lock m_databaseMutex, shared_lock m_handlersMutex]\<rparr>"

definition Database6 :: "(nat, nat, nat, nat) State" where
  "Database6 =
     Database5
       \<lparr>m_handlers := [6 \<mapsto> Handler0, 9 \<mapsto> Handler0],
        m_database := [3 \<mapsto> 0, 4 \<mapsto> 1],
        heap := (heap Database1)(1 \<mapsto> stamp 4 4096 Asset2 Instance0),
        brk := 2,
        trace := trace Database5 @
          [unique_lock m_handlersMutex, unique_lock m_databaseMutex,
           shared_lock m_handlersMutex, CreateCall 9 (Some 1)]\<rparr>"

text \<open>\<open>Database2\<close> is \<open>Database1\<close> after the handler of type 6 was removed.\<close>

definition Database2 :: "(nat, nat, nat, nat) State" where
  "Database2 = RemoveHandler 6 Database1"

section \<open>Properties\<close>

subsection \<open>Members and traces\<close>

text \<open>What reporting and locking leave alone, and what \<open>AddHandler\<close> changes.\<close>

lemma emit_fields [simp]:
  "m_handlers (emit e s) = m_handlers s"
  "m_database (emit e s) = m_database s"
  "m_baseAssetType (emit e s) = m_baseAssetType s"
  "this (emit e s) = this s"
  "heap (emit e s) = heap s"
  "brk (emit e s) = brk s"
  "trace (emit e s) = trace s @ [e]"
  by (simp_all add: emit_def)

lemma AZ_Assert_fields [simp]:
  "m_handlers (AZ_Assert E b m s) = m_handlers s"
  "m_database (AZ_Assert E b m s) = m_database s"
  "m_baseAssetType (AZ_Assert E b m s) = m_baseAssetType s"
  "this (AZ_Assert E b m s) = this s"
  "heap (AZ_Assert E b m s) = heap s"
  "brk (AZ_Assert E b m s) = brk s"
  by (simp_all add: AZ_Assert_def)

lemma AZ_Error_fields [simp]:
  "m_handlers (AZ_Error E b m s) = m_handlers s"
  "m_database (AZ_Error E b m s) = m_database s"
  "m_baseAssetType (AZ_Error E b m s) = m_baseAssetType s"
  "this (AZ_Error E b m s) = this s"
  "heap (AZ_Error E b m s) = heap s"
  "brk (AZ_Error E b m s) = brk s"
  by (simp_all add: AZ_Error_def)

lemma AZ_Warning_fields [simp]:
  "m_handlers (AZ_Warning E b m s) = m_handlers s"
  "m_database (AZ_Warning E b m s) = m_database s"
  "m_baseAssetType (AZ_Warning E b m s) = m_baseAssetType s"
  "this (AZ_Warning E b m s) = this s"
  "heap (AZ_Warning E b m s) = heap s"
  "brk (AZ_Warning E b m s) = brk s"
  by (simp_all add: AZ_Warning_def)

lemma created_append [simp]: "created (xs @ ys) = created xs + created ys"
  by (induction xs rule: created.induct) simp_all

lemma deleted_append [simp]: "deleted (xs @ ys) = deleted xs @ deleted ys"
  by (induction xs rule: deleted.induct) simp_all

lemma diagnostics_created [simp]:
  "created (trace (AZ_Assert E b m s)) = created (trace s)"
  "created (trace (AZ_Error E b m s)) = created (trace s)"
  "created (trace (AZ_Warning E b m s)) = created (trace s)"
  by (simp_all add: AZ_Assert_def AZ_Error_def AZ_Warning_def)

lemma diagnostics_deleted [simp]:
  "deleted (trace (AZ_Assert E b m s)) = deleted (trace s)"
  "deleted (trace (AZ_Error E b m s)) = deleted (trace s)"
  "deleted (trace (AZ_Warning E b m s)) = deleted (trace s)"
  by (simp_all add: AZ_Assert_def AZ_Error_def AZ_Warning_def)

lemma FindHandler_eq:
  "FindHandler t s = (m_handlers s t, emit (shared_lock m_handlersMutex) s)"
  by (simp add: FindHandler_def Let_def)

lemma AddHandler_handlers:
  "m_handlers (AddHandler E t h s) = emplace (m_handlers s) t h"
  by (simp add: AddHandler_def Let_def)

lemma AddHandler_members [simp]:
  "m_database (AddHandler E t h s) = m_database s"
  "m_baseAssetType (AddHandler E t h s) = m_baseAssetType s"
  "this (AddHandler E t h s) = this s"
  "heap (AddHandler E t h s) = heap s"
  "brk (AddHandler E t h s) = brk s"
  by (simp_all add: AddHandler_def Let_def)

lemma AddHandler_trace:
  "trace (AddHandler E t h s) =
     trace (AZ_Assert E (m_createFunction h \<noteq> None)
        ''You are required to provide a create function to InstanceDatabase.'' s)
     @ [unique_lock m_handlersMutex]
     @ (if AZ_ENABLE_TRACING E \<and> m_handlers s t \<noteq> None
        then [Assert ''An InstanceHandler already exists for this AssetType''] else [])"
  by (simp add: AddHandler_def Let_def AZ_Assert_def)

lemma FindOrCreate_load_members [simp]:
  "m_handlers (snd (FindOrCreate_load E a s)) = m_handlers s"
  "m_database (snd (FindOrCreate_load E a s)) = m_database s"
  "m_baseAssetType (snd (FindOrCreate_load E a s)) = m_baseAssetType s"
  "heap (snd (FindOrCreate_load E a s)) = heap s"
  by (simp_all add: FindOrCreate_load_def)

lemma sched_step_0:
  "sched_step E 0 ([t], s) =
     (case thread_step E t s of Inl f \<Rightarrow> Inl f | Inr (t', s') \<Rightarrow> Inr ([t'], s'))"
  by (simp add: sched_step_def split: sum.splits prod.splits)

subsection \<open>What a call changes\<close>

text \<open>
  A call of \<open>FindOrCreate\<close> that returns ends in one of three ways: with no instance
  and the objects as they were, with the instance of the table and the objects as they
  were, or with a new instance constructed, stamped and inserted.
\<close>

lemma same_objects_refl [simp]: "same_objects s s"
  by (simp add: same_objects_def)

lemma same_objects_trans: "same_objects s s1 \<Longrightarrow> same_objects s1 s2 \<Longrightarrow> same_objects s s2"
  by (simp add: same_objects_def)

lemma same_objects_emit:
  "\<forall>f p. e \<noteq> DeleteCall f p \<Longrightarrow> same_objects s (emit e s)"
  by (cases e) (simp_all add: same_objects_def)

lemma same_objects_diagnostics [simp]:
  "same_objects s (AZ_Assert E b m s)"
  "same_objects s (AZ_Error E b m s)"
  "same_objects s (AZ_Warning E b m s)"
  by (simp_all add: same_objects_def)

lemma ValidateSameAsset_Inr:
  "ValidateSameAsset E p a s = Inr s' \<Longrightarrow>
     same_objects s s' \<and> created (trace s') = created (trace s)"
  by (auto simp: ValidateSameAsset_def split: if_splits option.splits)

lemma ValidateSameAsset_live:
  "heap s p = Some obj \<Longrightarrow>
     ValidateSameAsset E p a s =
       Inr (if AZ_DEBUG_BUILD E
            then AZ_Error E (m_assetId obj = GetId a)
              ''InstanceDatabase::FindOrCreate found the requested instance, but a different asset was used to create it.'' s
            else s)"
  by (simp add: ValidateSameAsset_def)

lemma FindOrCreate_load_state:
  "same_objects s (snd (FindOrCreate_load E a s)) \<and>
   created (trace (snd (FindOrCreate_load E a s))) = created (trace s)"
  by (simp add: FindOrCreate_load_def same_objects_emit)

lemma FindOrCreate_load_fst:
  "fst (FindOrCreate_load E a s) = fst (FindOrCreate_load E a s0)"
  by (simp add: FindOrCreate_load_def)

lemma FindOrCreate_typecheck_state:
  "FindOrCreate_typecheck E aL s = (b, s') \<Longrightarrow>
     same_objects s s' \<and> created (trace s') = created (trace s)"
  by (auto simp: FindOrCreate_typecheck_def FindHandler_eq same_objects_def
      split: if_splits option.splits)

lemma FindOrCreate_emplace_cases:
  assumes "FindOrCreate_emplace E k aL s = Inr (r, s')" and "m_database s k = None"
  shows "(r = None \<and> same_objects s s') \<or> (r = Some (brk s) \<and> constructed_by k aL s s')"
  using assms
  by (auto simp: FindOrCreate_emplace_def FindHandler_eq same_objects_def constructed_by_def
      stamp_def emplace_def Let_def
      split: option.splits)

lemma FindOrCreate_locked_cases:
  assumes "FindOrCreate_locked E k a aL s = Inr (r, s')"
  shows "(r = None \<and> same_objects s s') \<or>
         (\<exists>p. r = Some p \<and> m_database s k = Some p \<and> same_objects s s' \<and>
              created (trace s') = created (trace s)) \<or>
         (r = Some (brk s) \<and> constructed_by k aL s s')"
proof (cases "m_database s k")
  case None
  let ?s1 = "emit (unique_lock m_databaseMutex) s"
  from assms None have e: "FindOrCreate_emplace E k aL ?s1 = Inr (r, s')"
    by (simp add: FindOrCreate_locked_def Let_def)
  have so: "same_objects s ?s1" by (simp add: same_objects_emit)
  from FindOrCreate_emplace_cases [OF e] None
  have "(r = None \<and> same_objects ?s1 s') \<or> (r = Some (brk ?s1) \<and> constructed_by k aL ?s1 s')"
    by simp
  then show ?thesis
  proof
    assume "r = None \<and> same_objects ?s1 s'"
    with so show ?thesis by (blast intro: same_objects_trans)
  next
    assume "r = Some (brk ?s1) \<and> constructed_by k aL ?s1 s'"
    then show ?thesis by (simp add: constructed_by_def)
  qed
next
  case (Some p)
  let ?s1 = "emit (unique_lock m_databaseMutex) s"
  from assms Some obtain s2 where v: "ValidateSameAsset E p a ?s1 = Inr s2" and r: "r = Some p" "s' = s2"
    by (auto simp: FindOrCreate_locked_def Let_def split: sum.splits)
  have so: "same_objects s ?s1" by (simp add: same_objects_emit)
  from ValidateSameAsset_Inr [OF v] so r have "same_objects s s' \<and> created (trace s') = created (trace s)"
    by (auto intro: same_objects_trans)
  with Some r show ?thesis by simp
qed

lemma FindOrCreate_cases:
  assumes "FindOrCreate E k a s = Inr (r, s')"
  shows "(r = None \<and> same_objects s s') \<or>
         (\<exists>p. r = Some p \<and> IsValid E k \<and> m_database s k = Some p \<and> same_objects s s' \<and>
              created (trace s') = created (trace s)) \<or>
         (r = Some (brk s) \<and> IsValid E k \<and>
          constructed_by k (fst (FindOrCreate_load E a s)) s s')"
proof (cases "IsValid E k")
  case False
  with assms show ?thesis by (simp add: FindOrCreate_def)
next
  case True
  let ?s1 = "emit (shared_lock m_databaseMutex) s"
  have so1: "same_objects s ?s1" by (simp add: same_objects_emit)
  show ?thesis
  proof (cases "m_database s k")
    case (Some p)
    from assms True Some obtain s2 where v: "ValidateSameAsset E p a ?s1 = Inr s2"
      and r: "r = Some p" "s' = s2"
      by (auto simp: FindOrCreate_def Let_def split: sum.splits)
    from ValidateSameAsset_Inr [OF v] so1 r
    have "same_objects s s' \<and> created (trace s') = created (trace s)"
      by (auto intro: same_objects_trans)
    with Some r True show ?thesis by simp
  next
    case None
    let ?aL = "fst (FindOrCreate_load E a ?s1)"
    let ?s2 = "snd (FindOrCreate_load E a ?s1)"
    have aL: "?aL = fst (FindOrCreate_load E a s)" by (rule FindOrCreate_load_fst)
    have so2: "same_objects s ?s2" "created (trace ?s2) = created (trace s)"
      using FindOrCreate_load_state [of ?s1 E a] so1 by (auto intro: same_objects_trans)
    show ?thesis
    proof (cases "IsReady ?aL")
      case False
      with assms True None have "r = None" "s' = ?s2"
        by (auto simp: FindOrCreate_def Let_def split: prod.splits)
      with so2 show ?thesis by simp
    next
      case ready: True
      obtain b s3 where tc: "FindOrCreate_typecheck E ?aL ?s2 = (b, s3)"
        by (cases "FindOrCreate_typecheck E ?aL ?s2")
      from FindOrCreate_typecheck_state [OF tc] so2
      have so3: "same_objects s s3" "created (trace s3) = created (trace s)"
        by (auto intro: same_objects_trans)
      show ?thesis
      proof (cases b)
        case True
        with assms \<open>IsValid E k\<close> None ready tc have "r = None" "s' = s3"
          by (auto simp: FindOrCreate_def Let_def split: prod.splits)
        with so3 show ?thesis by simp
      next
        case False
        with assms \<open>IsValid E k\<close> None ready tc
        have l: "FindOrCreate_locked E k a ?aL s3 = Inr (r, s')"
          by (auto simp: FindOrCreate_def Let_def split: prod.splits)
        from so3 None have n3: "m_database s3 k = None" by (simp add: same_objects_def)
        from FindOrCreate_locked_cases [OF l] n3
        have "(r = None \<and> same_objects s3 s') \<or> (r = Some (brk s3) \<and> constructed_by k ?aL s3 s')"
          by auto
        then show ?thesis
        proof
          assume "r = None \<and> same_objects s3 s'"
          with so3 show ?thesis by (blast intro: same_objects_trans)
        next
          assume c: "r = Some (brk s3) \<and> constructed_by k ?aL s3 s'"
          with so3 have "r = Some (brk s)" "constructed_by k ?aL s s'"
            by (simp_all add: constructed_by_def same_objects_def)
          with aL \<open>IsValid E k\<close> show ?thesis by simp
        qed
      qed
    qed
  qed
qed

lemma FindOrCreate_invalid: "\<not> IsValid E k \<Longrightarrow> FindOrCreate E k a s = Inr (None, s)"
  by (simp add: FindOrCreate_def)

lemma FindOrCreate_hit:
  assumes "IsValid E k" and "m_database s k = Some p"
  shows "FindOrCreate E k a s =
     (case ValidateSameAsset E p a (emit (shared_lock m_databaseMutex) s) of
        Inl f \<Rightarrow> Inl f
      | Inr s2 \<Rightarrow> Inr (Some p, s2))"
  using assms by (simp add: FindOrCreate_def Let_def)

lemma FindOrCreate_miss:
  assumes "IsValid E k" and "m_database s k = None"
  shows "FindOrCreate E k a s =
     (if \<not> IsReady (fst (FindOrCreate_load E a (emit (shared_lock m_databaseMutex) s)))
      then Inr (None, snd (FindOrCreate_load E a (emit (shared_lock m_databaseMutex) s)))
      else if fst (FindOrCreate_typecheck E
                 (fst (FindOrCreate_load E a (emit (shared_lock m_databaseMutex) s)))
                 (snd (FindOrCreate_load E a (emit (shared_lock m_databaseMutex) s))))
      then Inr (None, snd (FindOrCreate_typecheck E
                 (fst (FindOrCreate_load E a (emit (shared_lock m_databaseMutex) s)))
                 (snd (FindOrCreate_load E a (emit (shared_lock m_databaseMutex) s)))))
      else FindOrCreate_locked E k a
             (fst (FindOrCreate_load E a (emit (shared_lock m_databaseMutex) s)))
             (snd (FindOrCreate_typecheck E
                 (fst (FindOrCreate_load E a (emit (shared_lock m_databaseMutex) s)))
                 (snd (FindOrCreate_load E a (emit (shared_lock m_databaseMutex) s))))))"
  using assms by (simp add: FindOrCreate_def Let_def case_prod_beta split: bool.splits)

lemma FindOrCreate_not_found:
  assumes "IsValid E k" and "m_database s k = None"
    and "\<not> IsReady (fst (FindOrCreate_load E a s)) \<or>
         m_handlers s (GetType (fst (FindOrCreate_load E a s))) = None \<or>
         (\<exists>h c. m_handlers s (GetType (fst (FindOrCreate_load E a s))) = Some h \<and>
                m_createFunction h = Some c \<and> c (Get (fst (FindOrCreate_load E a s))) = None)"
  shows "\<exists>s'. FindOrCreate E k a s = Inr (None, s')"
proof -
  let ?s1 = "emit (shared_lock m_databaseMutex) s"
  let ?aL = "fst (FindOrCreate_load E a ?s1)"
  let ?s2 = "snd (FindOrCreate_load E a ?s1)"
  have aL: "fst (FindOrCreate_load E a s) = ?aL" by (rule FindOrCreate_load_fst)
  have ld: "FindOrCreate_load E a ?s1 = (?aL, ?s2)" by simp
  show ?thesis
  proof (cases "IsReady ?aL")
    case False
    with assms(1,2) show ?thesis by (simp add: FindOrCreate_miss)
  next
    case True
    with assms(3) aL have h: "m_handlers s (GetType ?aL) = None \<or>
         (\<exists>h c. m_handlers s (GetType ?aL) = Some h \<and>
                m_createFunction h = Some c \<and> c (Get ?aL) = None)" by simp
    have eq: "FindOrCreate E k a s =
            (if fst (FindOrCreate_typecheck E ?aL ?s2)
             then Inr (None, snd (FindOrCreate_typecheck E ?aL ?s2))
             else FindOrCreate_locked E k a ?aL (snd (FindOrCreate_typecheck E ?aL ?s2)))"
      using assms(1,2) True by (simp add: FindOrCreate_miss)
    obtain b s3 where tc: "FindOrCreate_typecheck E ?aL ?s2 = (b, s3)"
      by (cases "FindOrCreate_typecheck E ?aL ?s2")
    from FindOrCreate_typecheck_state [OF tc]
    have m3: "m_handlers s3 = m_handlers s" "m_database s3 = m_database s"
      by (simp_all add: same_objects_def)
    show ?thesis
    proof (cases b)
      case True
      with eq tc show ?thesis by simp
    next
      case False
      with eq tc have "FindOrCreate E k a s = FindOrCreate_locked E k a ?aL s3" by simp
      also from h m3 assms(2) have "\<exists>s'. FindOrCreate_locked E k a ?aL s3 = Inr (None, s')"
        by (auto simp: FindOrCreate_locked_def FindOrCreate_emplace_def FindHandler_eq Let_def)
      finally show ?thesis .
    qed
  qed
qed

lemma ReleaseInstance_other:
  assumes "m_database s k \<noteq> Some p \<or> (\<exists>obj. heap s p = Some obj \<and> m_useCount obj \<noteq> 0)"
  shows "ReleaseInstance E p k s = Inr (emit (unique_lock m_databaseMutex) s)"
  using assms by (auto simp: ReleaseInstance_def Let_def)

lemma ReleaseInstance_zero:
  assumes "m_database s k = Some p" and "heap s p = Some obj" and "m_useCount obj = 0"
  shows "ReleaseInstance E p k s =
     Inr (case m_handlers s (m_assetType obj) of
            Some h \<Rightarrow>
              (emit (DeleteCall (m_deleteFunction h) p)
                 (emit (shared_lock m_handlersMutex)
                    ((emit (unique_lock m_databaseMutex) s)
                       \<lparr>heap := (heap s)(p \<mapsto> obj\<lparr>m_useCount := - 1\<rparr>),
                         m_database := (m_database s)(m_id obj := None)\<rparr>)))
                \<lparr>heap := (heap s)(p := None)\<rparr>
          | None \<Rightarrow>
              AZ_Assert E False
                ''Cannot delete Instance. No InstanceHandler found for asset type %s''
                (emit (shared_lock m_handlersMutex)
                   ((emit (unique_lock m_databaseMutex) s)
                      \<lparr>heap := (heap s)(p \<mapsto> obj\<lparr>m_useCount := - 1\<rparr>),
                        m_database := (m_database s)(m_id obj := None)\<rparr>)))"
  using assms
  by (simp add: ReleaseInstance_def Let_def FindHandler_eq emit_def split: option.splits)

subsection \<open>The invariant of the reachable states\<close>

text \<open>Every operation keeps \<open>consistent\<close>, so every reachable state has it.\<close>

lemma consistent_same_objects: "consistent E s \<Longrightarrow> same_objects s s' \<Longrightarrow> consistent E s'"
  by (simp add: consistent_def same_objects_def)

lemma consistent_entry:
  "consistent E s \<Longrightarrow> m_database s k = Some p \<Longrightarrow>
     IsValid E k \<and> (\<exists>obj. heap s p = Some obj \<and> m_id obj = k)"
  unfolding consistent_def by blast

lemma consistent_constructed: "consistent E (InstanceDatabase addr t)"
  by (simp add: consistent_def InstanceDatabase_def)

lemma consistent_AddHandler: "consistent E s \<Longrightarrow> consistent E (AddHandler E t h s)"
  by (simp add: consistent_def AddHandler_def Let_def)

lemma consistent_RemoveHandler: "consistent E s \<Longrightarrow> consistent E (RemoveHandler t s)"
  by (simp add: consistent_def RemoveHandler_def Let_def)

lemma consistent_Find: "consistent E s \<Longrightarrow> consistent E (snd (Find k s))"
  by (simp add: consistent_def Find_def Let_def)

lemma consistent_store_useCount:
  assumes "consistent E s"
  shows "consistent E (store_useCount p c s)"
proof (cases "heap s p")
  case None
  with assms show ?thesis by (simp add: store_useCount_def)
next
  case (Some obj)
  from assms have
    w1: "\<And>k q. m_database s k = Some q \<Longrightarrow> IsValid E k \<and> (\<exists>obj. heap s q = Some obj \<and> m_id obj = k)" and
    w2: "\<And>q obj. heap s q = Some obj \<Longrightarrow> q < brk s" and
    w3: "distinct (deleted (trace s))" and
    w4: "\<And>q. q \<in> set (deleted (trace s)) \<Longrightarrow> q < brk s \<and> heap s q = None"
    by (auto simp: consistent_def)
  let ?s' = "s\<lparr>heap := (heap s)(p \<mapsto> obj\<lparr>m_useCount := c\<rparr>)\<rparr>"
  have a: "\<forall>k q. m_database ?s' k = Some q \<longrightarrow>
             IsValid E k \<and> (\<exists>obj. heap ?s' q = Some obj \<and> m_id obj = k)"
    using w1 Some by fastforce
  have b: "\<forall>q obj. heap ?s' q = Some obj \<longrightarrow> q < brk ?s'"
    using w2 Some by (auto split: if_splits)
  have c: "\<forall>q \<in> set (deleted (trace ?s')). q < brk ?s' \<and> heap ?s' q = None"
    using w4 Some by auto
  from a b c w3 have "consistent E ?s'" by (simp add: consistent_def)
  with Some show ?thesis by (simp add: store_useCount_def)
qed

lemma consistent_constructed_by:
  assumes "consistent E s" and "IsValid E k" and "constructed_by k aL s s'"
  shows "consistent E s'"
proof -
  from assms(3) obtain obj where
    db: "m_database s' = (m_database s)(k \<mapsto> brk s)" and
    hp: "heap s' = (heap s)(brk s \<mapsto> stamp k (this s) aL obj)" and
    bk: "brk s' = Suc (brk s)" and
    dl: "deleted (trace s') = deleted (trace s)"
    by (auto simp: constructed_by_def)
  from assms(1) have
    w1: "\<And>k p. m_database s k = Some p \<Longrightarrow> IsValid E k \<and> (\<exists>obj. heap s p = Some obj \<and> m_id obj = k)" and
    w2: "\<And>p obj. heap s p = Some obj \<Longrightarrow> p < brk s" and
    w3: "distinct (deleted (trace s))" and
    w4: "\<And>p. p \<in> set (deleted (trace s)) \<Longrightarrow> p < brk s \<and> heap s p = None"
    by (auto simp: consistent_def)
  have a: "\<forall>k' p. m_database s' k' = Some p \<longrightarrow>
             IsValid E k' \<and> (\<exists>obj. heap s' p = Some obj \<and> m_id obj = k')"
  proof (intro allI impI)
    fix k' p assume h: "m_database s' k' = Some p"
    show "IsValid E k' \<and> (\<exists>obj. heap s' p = Some obj \<and> m_id obj = k')"
    proof (cases "k' = k")
      case True
      with h db have "p = brk s" by simp
      with True assms(2) hp show ?thesis by (simp add: stamp_def)
    next
      case False
      with h db have old: "m_database s k' = Some p" by simp
      from w1 [OF old] w2 have "p \<noteq> brk s" by auto
      with w1 [OF old] hp show ?thesis by simp
    qed
  qed
  have b: "\<forall>p obj. heap s' p = Some obj \<longrightarrow> p < brk s'"
    using hp bk w2 by (auto simp: less_Suc_eq split: if_splits)
  have c: "\<forall>p \<in> set (deleted (trace s')). p < brk s' \<and> heap s' p = None"
    using hp bk dl w4 by (auto simp: less_Suc_eq)
  from a b c w3 dl show ?thesis by (simp add: consistent_def)
qed

lemma consistent_FindOrCreate:
  assumes "consistent E s" and "FindOrCreate E k a s = Inr (r, s')"
  shows "consistent E s'"
  using FindOrCreate_cases [OF assms(2)] assms(1)
  by (auto intro: consistent_same_objects consistent_constructed_by)

lemma consistent_ReleaseInstance:
  assumes "consistent E s" and "ReleaseInstance E p k s = Inr s'"
  shows "consistent E s'"
proof (cases "m_database s k = Some p")
  case False
  with assms(2) have "s' = emit (unique_lock m_databaseMutex) s"
    by (simp add: ReleaseInstance_other)
  with assms(1) show ?thesis by (auto intro: consistent_same_objects same_objects_emit)
next
  case True
  from assms(1) have
    w1: "\<And>k q. m_database s k = Some q \<Longrightarrow> IsValid E k \<and> (\<exists>obj. heap s q = Some obj \<and> m_id obj = k)" and
    w2: "\<And>q obj. heap s q = Some obj \<Longrightarrow> q < brk s" and
    w3: "distinct (deleted (trace s))" and
    w4: "\<And>q. q \<in> set (deleted (trace s)) \<Longrightarrow> q < brk s \<and> heap s q = None"
    by (auto simp: consistent_def)
  from w1 [OF True] obtain obj where obj: "heap s p = Some obj" "m_id obj = k" by auto
  show ?thesis
  proof (cases "m_useCount obj = 0")
    case False
    with obj assms(2) have "s' = emit (unique_lock m_databaseMutex) s"
      by (simp add: ReleaseInstance_other)
    with assms(1) show ?thesis by (auto intro: consistent_same_objects same_objects_emit)
  next
    case zero: True
    have inj: "\<And>k' q. k' \<noteq> k \<Longrightarrow> m_database s k' = Some q \<Longrightarrow> q \<noteq> p"
      using w1 obj by fastforce
    have notdel: "p \<notin> set (deleted (trace s))" using w4 obj by auto
    show ?thesis
    proof (cases "m_handlers s (m_assetType obj)")
      case None
      with assms(2) True obj zero have s': "s' = AZ_Assert E False
                ''Cannot delete Instance. No InstanceHandler found for asset type %s''
                (emit (shared_lock m_handlersMutex)
                   ((emit (unique_lock m_databaseMutex) s)
                      \<lparr>heap := (heap s)(p \<mapsto> obj\<lparr>m_useCount := - 1\<rparr>),
                        m_database := (m_database s)(k := None)\<rparr>))"
        by (simp add: ReleaseInstance_zero)
      have a: "\<forall>k' q. m_database s' k' = Some q \<longrightarrow>
             IsValid E k' \<and> (\<exists>obj. heap s' q = Some obj \<and> m_id obj = k')"
        using w1 inj by (auto simp: s' emit_def split: if_splits)
      have b: "\<forall>q obj. heap s' q = Some obj \<longrightarrow> q < brk s'"
        using w2 obj by (auto simp: s' emit_def split: if_splits)
      have c: "\<forall>q \<in> set (deleted (trace s')). q < brk s' \<and> heap s' q = None"
        using w4 notdel by (auto simp: s' emit_def)
      have d: "distinct (deleted (trace s'))" using w3 by (simp add: s' emit_def)
      from a b c d show ?thesis by (simp add: consistent_def)
    next
      case (Some h)
      with assms(2) True obj zero have s': "s' =
              (emit (DeleteCall (m_deleteFunction h) p)
                 (emit (shared_lock m_handlersMutex)
                    ((emit (unique_lock m_databaseMutex) s)
                       \<lparr>heap := (heap s)(p \<mapsto> obj\<lparr>m_useCount := - 1\<rparr>),
                         m_database := (m_database s)(k := None)\<rparr>)))
                \<lparr>heap := (heap s)(p := None)\<rparr>"
        by (simp add: ReleaseInstance_zero)
      have a: "\<forall>k' q. m_database s' k' = Some q \<longrightarrow>
             IsValid E k' \<and> (\<exists>obj. heap s' q = Some obj \<and> m_id obj = k')"
        using w1 inj by (auto simp: s' emit_def split: if_splits)
      have b: "\<forall>q obj. heap s' q = Some obj \<longrightarrow> q < brk s'"
        using w2 obj by (auto simp: s' emit_def split: if_splits)
      have c: "\<forall>q \<in> set (deleted (trace s')). q < brk s' \<and> heap s' q = None"
        using w4 w2 obj by (auto simp: s' emit_def)
      have d: "distinct (deleted (trace s'))" using w3 notdel by (simp add: s' emit_def)
      from a b c d show ?thesis by (simp add: consistent_def)
    qed
  qed
qed

lemma reachable_consistent: "reachable E s \<Longrightarrow> consistent E s"
  by (induction rule: reachable.induct)
    (auto intro: consistent_constructed consistent_AddHandler consistent_RemoveHandler consistent_Find consistent_FindOrCreate
      consistent_ReleaseInstance consistent_store_useCount)

subsection \<open>The configuration\<close>

text \<open>The members of the example states, and the calls that lead from one to the next.\<close>

lemma Env0_fields:
  "IsValid Env0 i = (i \<noteq> 0)"
  "CreateFromAssetId Env0 x = Suc x"
  "AssetManager_GetAsset Env0 x t = \<lparr>GetId = x, GetType = t, IsReady = (x < 100), Get = t\<rparr>"
  "azrtti_istypeof Env0 b d = (b dvd d)"
  "AZ_DEBUG_BUILD Env0 = True"
  "AZ_ENABLE_TRACING Env0 = True"
  by (simp_all add: Env0_def)

lemma Env1_fields:
  "IsValid Env1 i = (i \<noteq> 0)"
  "CreateFromAssetId Env1 x = Suc x"
  "AssetManager_GetAsset Env1 x t = \<lparr>GetId = x, GetType = t, IsReady = (x < 100), Get = t\<rparr>"
  "azrtti_istypeof Env1 b d = (b dvd d)"
  "AZ_DEBUG_BUILD Env1 = False"
  "AZ_ENABLE_TRACING Env1 = False"
  by (simp_all add: Env1_def Env0_def)

lemma Asset_fields:
  "GetId Asset0 = 5" "GetType Asset0 = 6" "IsReady Asset0 = False" "Get Asset0 = 0"
  "GetId Asset1 = 200" "GetType Asset1 = 9" "IsReady Asset1 = False" "Get Asset1 = 9"
  "GetId Asset2 = 7" "GetType Asset2 = 9" "IsReady Asset2 = True" "Get Asset2 = 9"
  "GetId Asset3 = 8" "GetType Asset3 = 6" "IsReady Asset3 = True" "Get Asset3 = 26"
  by (simp_all add: Asset0_def Asset1_def Asset2_def Asset3_def)

lemma Asset4_fields:
  "GetId Asset4 = 9" "GetType Asset4 = 15" "IsReady Asset4 = False" "Get Asset4 = 0"
  by (simp_all add: Asset4_def)

lemma Database0_fields:
  "m_handlers Database0 = [6 \<mapsto> Handler0]"
  "m_database Database0 = Map.empty"
  "m_baseAssetType Database0 = 2"
  "this Database0 = 4096"
  "heap Database0 = Map.empty"
  "brk Database0 = 0"
  "trace Database0 = [unique_lock m_handlersMutex]"
  by (simp_all add: Database0_def AddHandler_def Let_def InstanceDatabase_def AZ_Assert_def
      emit_def emplace_def Handler0_def)

lemma Database1_fields:
  "m_handlers Database1 = [6 \<mapsto> Handler0]"
  "m_database Database1 = [3 \<mapsto> 0]"
  "m_baseAssetType Database1 = 2"
  "this Database1 = 4096"
  "heap Database1 = [0 \<mapsto> \<lparr>m_id = 3, m_parentDatabase = Some 4096, m_assetId = 5, m_assetType = 6, m_useCount = 0\<rparr>]"
  "brk Database1 = 1"
  "trace Database1 = [unique_lock m_handlersMutex, shared_lock m_databaseMutex,
     GetAsset 5 6, unique_lock m_databaseMutex, shared_lock m_handlersMutex, CreateCall 6 (Some 0)]"
  by (simp_all add: Database1_def Database0_fields stamp_def Instance0_def)

lemma Database2_fields:
  "m_handlers Database2 = Map.empty"
  "m_database Database2 = [3 \<mapsto> 0]"
  "heap Database2 = [0 \<mapsto> \<lparr>m_id = 3, m_parentDatabase = Some 4096, m_assetId = 5, m_assetType = 6, m_useCount = 0\<rparr>]"
  "deleted (trace Database2) = []"
  by (simp_all add: Database2_def RemoveHandler_def Let_def Database1_fields)

lemma Database4_fields:
  "m_handlers Database4 = [6 \<mapsto> Handler0, 15 \<mapsto> Handler0]"
  "m_database Database4 = [3 \<mapsto> 0]"
  "m_baseAssetType Database4 = 2"
  "heap Database4 = heap Database1"
  "trace Database4 = trace Database1 @ [unique_lock m_handlersMutex]"
  by (simp_all add: Database4_def AddHandler_handlers AddHandler_trace Database1_fields
      emplace_def AZ_Assert_def Handler0_def)

lemma reachable_Database0: "reachable Env0 Database0"
  unfolding Database0_def by (intro reachable.after_AddHandler reachable.constructed)

lemma FindOrCreate_Database0:
  "FindOrCreate Env0 3 Asset0 Database0 = Inr (Some 0, Database1)"
  by (simp add: FindOrCreate_def FindOrCreate_load_def FindOrCreate_typecheck_def
      FindOrCreate_locked_def FindOrCreate_emplace_def FindHandler_eq Let_def
      Env0_def Asset0_def Database0_fields Database1_def emit_def emplace_def Handler0_def
      stamp_def)

lemma reachable_Database1: "reachable Env0 Database1"
  by (rule reachable.after_FindOrCreate [OF reachable_Database0 FindOrCreate_Database0])

lemma FindOrCreate_Database1_7:
  "\<exists>s2. Create Env0 7 Asset0 Database1 = Inr (Some 1, s2)"
  by (simp add: Create_def FindOrCreate_miss FindOrCreate_load_def FindOrCreate_typecheck_def
      FindOrCreate_locked_def FindOrCreate_emplace_def FindHandler_eq Let_def
      Env0_fields Asset_fields Database1_fields Handler0_def)

lemma FindOrCreate_asset_Database0_state:
  "\<exists>s1. FindOrCreate_asset Env0 Asset0 Database0 = Inr (Some 0, s1) \<and>
      trace s1 = trace Database0 @
        [shared_lock m_databaseMutex, GetAsset 5 6, unique_lock m_databaseMutex,
         shared_lock m_handlersMutex, CreateCall 6 (Some 0)]"
  by (simp add: FindOrCreate_asset_def FindOrCreate_miss FindOrCreate_load_def
      FindOrCreate_typecheck_def FindOrCreate_locked_def FindOrCreate_emplace_def
      FindHandler_eq Let_def Env0_fields Asset_fields Database0_fields Handler0_def)

lemma Database2_more:
  "trace Database2 = trace Database1 @ [unique_lock m_handlersMutex]"
  "m_baseAssetType Database2 = 2"
  by (simp_all add: Database2_def RemoveHandler_def Let_def Database1_fields)

lemma reachable_Database2: "reachable Env0 Database2"
  unfolding Database2_def by (rule reachable.after_RemoveHandler [OF reachable_Database1])

lemma reachable_Env1_Database2: "reachable Env1 Database2"
proof -
  have "reachable Env1 (InstanceDatabase 4096 2 :: (nat, nat, nat, nat) State)"
    by (rule reachable.constructed)
  then have r0: "reachable Env1 (AddHandler Env1 6 Handler0 (InstanceDatabase 4096 2))"
    by (rule reachable.after_AddHandler)
  have "AddHandler Env1 6 Handler0 (InstanceDatabase 4096 2) = Database0"
    by (simp add: Database0_def AddHandler_def Let_def AZ_Assert_def Handler0_def
        InstanceDatabase_def emplace_def)
  with r0 have r0': "reachable Env1 Database0" by simp
  have "FindOrCreate Env1 3 Asset0 Database0 = Inr (Some 0, Database1)"
    by (simp add: FindOrCreate_def FindOrCreate_load_def FindOrCreate_typecheck_def
      FindOrCreate_locked_def FindOrCreate_emplace_def FindHandler_eq Let_def
      Env1_fields Asset_fields Database0_fields Database1_def emit_def emplace_def Handler0_def
      stamp_def)
  with r0' have "reachable Env1 Database1" by (rule reachable.after_FindOrCreate)
  then show ?thesis unfolding Database2_def by (rule reachable.after_RemoveHandler)
qed

lemma Database5_fields:
  "m_handlers Database5 = [6 \<mapsto> Handler0]"
  "m_database Database5 = [3 \<mapsto> 0]"
  "m_baseAssetType Database5 = 2"
  "this Database5 = 4096"
  "heap Database5 = heap Database1"
  "brk Database5 = 1"
  "trace Database5 = trace Database1 @ [shared_lock m_databaseMutex, shared_lock m_handlersMutex]"
  by (simp_all add: Database5_def Database1_fields)

lemma run_to_lock_Database1:
  "run Env0 [0, 0, 0] ([at_entry 4 Asset2], Database1) = Inr ([at_lock 4 Asset2 Asset2], Database5)"
  by (simp add: sched_step_0 Let_def FindOrCreate_load_def FindOrCreate_typecheck_def
      FindHandler_eq Env0_fields Asset_fields Database1_fields Database5_def emit_def)

lemma run_lock_after_AddHandler:
  "run Env0 [0] ([at_lock 4 Asset2 Asset2], AddHandler Env0 9 Handler0 Database5) =
     Inr ([returned (Some 1)], Database6)"
  by (simp add: sched_step_0 Let_def FindOrCreate_locked_def FindOrCreate_emplace_def
      FindHandler_eq AddHandler_handlers AddHandler_def AZ_Assert_def
      Env0_fields Asset_fields Database5_fields Database1_fields Database6_def Database5_def
      emit_def emplace_def Handler0_def stamp_def)

subsection \<open>Handler registration\<close>

text \<open>
  Claim C7. \<open>AddHandler\<close> for an asset type that already has a handler leaves the
  handlers as they are, so that \<open>FindHandler\<close> still yields the handler registered
  first, and it reports the assertion "An InstanceHandler already exists for this
  AssetType" where the trace macros are compiled in. In particular, on a database with
  no handler for \<open>t\<close>, after \<open>AddHandler(t, p)\<close> and then \<open>AddHandler(t, p2)\<close> the lookup
  for \<open>t\<close> yields \<open>p\<close>.
\<close>

theorem AddHandler_twice:
  "(m_handlers s t = Some p \<longrightarrow>
      m_handlers (AddHandler E t p2 s) = m_handlers s \<and>
      fst (FindHandler t (AddHandler E t p2 s)) = Some p \<and>
      (AZ_ENABLE_TRACING E \<longrightarrow>
         last (trace (AddHandler E t p2 s)) =
           Assert ''An InstanceHandler already exists for this AssetType'')) \<and>
   (m_handlers s t = None \<longrightarrow>
      fst (FindHandler t (AddHandler E t p2 (AddHandler E t p s))) = Some p \<and>
      m_handlers (AddHandler E t p2 (AddHandler E t p s)) = m_handlers (AddHandler E t p s) \<and>
      (AZ_ENABLE_TRACING E \<longrightarrow>
         last (trace (AddHandler E t p2 (AddHandler E t p s))) =
           Assert ''An InstanceHandler already exists for this AssetType''))"
  by (simp add: AddHandler_handlers AddHandler_trace FindHandler_eq emplace_def)

theorem AddHandler_twice_witness:
  "m_handlers Database0 6 = Some Handler0 \<and>
   m_handlers (AddHandler Env0 6 Handler1 Database0) = m_handlers Database0 \<and>
   fst (FindHandler 6 (AddHandler Env0 6 Handler1 Database0)) = Some Handler0 \<and>
   last (trace (AddHandler Env0 6 Handler1 Database0)) =
     Assert ''An InstanceHandler already exists for this AssetType'' \<and>
   m_deleteFunction Handler1 \<noteq> m_deleteFunction Handler0"
  using AddHandler_twice [of Database0 6 Handler0 Env0 Handler1]
  by (simp add: Database0_def Env0_def Handler0_def Handler1_def InstanceDatabase_def
      AddHandler_handlers emplace_def)

subsection \<open>Invalid ids\<close>

text \<open>
  Claim C5. In every state reachable through the operations, every key of the instance
  table is a valid \<open>InstanceId\<close>. So \<open>Find\<close> of an invalid id returns no instance, and
  \<open>FindOrCreate\<close> of an invalid id returns no instance and leaves the state as it is,
  trace included: no lock is taken.
\<close>

theorem invalid_id_never_resolves:
  assumes "reachable E s"
  shows "(\<forall>k p. m_database s k = Some p \<longrightarrow> IsValid E k) \<and>
         (\<forall>k asset. \<not> IsValid E k \<longrightarrow>
            fst (Find k s) = None \<and> FindOrCreate E k asset s = Inr (None, s))"
proof -
  from reachable_consistent [OF assms]
  have v: "\<And>k p. m_database s k = Some p \<Longrightarrow> IsValid E k"
    by (auto simp: consistent_def)
  then have "\<And>k. \<not> IsValid E k \<Longrightarrow> m_database s k = None"
    by (meson not_Some_eq)
  with v show ?thesis
    by (auto simp: Find_def Let_def FindOrCreate_invalid)
qed

theorem invalid_id_never_resolves_witness:
  "reachable Env0 Database1 \<and> m_database Database1 3 = Some 0 \<and> IsValid Env0 3 \<and>
   \<not> IsValid Env0 0 \<and> fst (Find 0 Database1) = None \<and>
   FindOrCreate Env0 0 Asset0 Database1 = Inr (None, Database1)"
  using invalid_id_never_resolves [OF reachable_Database1] reachable_Database1
  by (simp add: Env0_def Database1_fields)

subsection \<open>Calls that find and create nothing\<close>

text \<open>
  Claim C3. Whenever \<open>FindOrCreate(id, asset)\<close> returns no instance, the instance table
  and the instances are as they were before the call. And the call does return no
  instance, for a valid id that is not in the table, when the asset fails to load, when
  no handler is registered for the type of the loaded asset, and when the create
  function of the handler returns null.
\<close>

theorem not_found_leaves_table:
  "(FindOrCreate E k a s = Inr (None, s') \<longrightarrow>
      m_database s' = m_database s \<and> heap s' = heap s) \<and>
   (IsValid E k \<and> m_database s k = None \<and>
    (\<not> IsReady (fst (FindOrCreate_load E a s)) \<or>
     m_handlers s (GetType (fst (FindOrCreate_load E a s))) = None \<or>
     (\<exists>h c. m_handlers s (GetType (fst (FindOrCreate_load E a s))) = Some h \<and>
            m_createFunction h = Some c \<and> c (Get (fst (FindOrCreate_load E a s))) = None)) \<longrightarrow>
    (\<exists>s''. FindOrCreate E k a s = Inr (None, s'') \<and> m_database s'' = m_database s))"
proof (intro conjI impI)
  assume r: "FindOrCreate E k a s = Inr (None, s')"
  from FindOrCreate_cases [OF r] have "same_objects s s'" by simp
  then show "m_database s' = m_database s" "heap s' = heap s"
    by (simp_all add: same_objects_def)
next
  assume h: "IsValid E k \<and> m_database s k = None \<and>
    (\<not> IsReady (fst (FindOrCreate_load E a s)) \<or>
     m_handlers s (GetType (fst (FindOrCreate_load E a s))) = None \<or>
     (\<exists>h c. m_handlers s (GetType (fst (FindOrCreate_load E a s))) = Some h \<and>
            m_createFunction h = Some c \<and> c (Get (fst (FindOrCreate_load E a s))) = None))"
  then obtain s'' where r: "FindOrCreate E k a s = Inr (None, s'')"
    using FindOrCreate_not_found [of E k s a] by blast
  from FindOrCreate_cases [OF r] have "same_objects s s''" by simp
  with r show "\<exists>s''. FindOrCreate E k a s = Inr (None, s'') \<and> m_database s'' = m_database s"
    by (auto simp: same_objects_def)
qed

theorem not_found_leaves_table_witness:
  "(\<exists>s'. FindOrCreate Env0 4 Asset1 Database1 = Inr (None, s') \<and>
         m_database s' = m_database Database1) \<and>
   (\<exists>s'. FindOrCreate Env0 4 Asset2 Database1 = Inr (None, s') \<and>
         m_database s' = m_database Database1) \<and>
   (\<exists>s'. FindOrCreate Env0 4 Asset3 Database1 = Inr (None, s') \<and>
         m_database s' = m_database Database1) \<and>
   m_database Database1 3 = Some 0"
  using not_found_leaves_table [of Env0 4 Asset1 Database1]
    not_found_leaves_table [of Env0 4 Asset2 Database1]
    not_found_leaves_table [of Env0 4 Asset3 Database1]
  by (simp add: Env0_def Asset1_def Asset2_def Asset3_def Database1_fields
      FindOrCreate_load_def Handler0_def)

subsection \<open>The instance is in the table\<close>

text \<open>
  Claim C10. When the valid id is in the instance table, \<open>FindOrCreate\<close> returns the
  stored instance whatever the asset is: in a release build the call only takes the
  shared lock of the table, and in a debug build it also compares the asset ids and
  reports an error where they differ. It loads nothing, does not look at the type of
  the asset, and does not take the lock of the handlers; an asset that is not loaded,
  or of a type outside the base type, still gets the stored instance.
\<close>

theorem cache_hit_returns_stored:
  assumes "IsValid E k" and "m_database s k = Some p"
  shows "(\<not> AZ_DEBUG_BUILD E \<longrightarrow>
            FindOrCreate E k a s = Inr (Some p, emit (shared_lock m_databaseMutex) s)) \<and>
         (AZ_DEBUG_BUILD E \<and> heap s p = Some obj \<longrightarrow>
            FindOrCreate E k a s =
              Inr (Some p,
                   AZ_Error E (m_assetId obj = GetId a)
                     ''InstanceDatabase::FindOrCreate found the requested instance, but a different asset was used to create it.''
                     (emit (shared_lock m_databaseMutex) s)))"
  using assms by (simp add: FindOrCreate_hit ValidateSameAsset_def)

theorem cache_hit_returns_stored_witness:
  "FindOrCreate Env1 3 Asset1 Database1 = Inr (Some 0, emit (shared_lock m_databaseMutex) Database1) \<and>
   \<not> IsReady Asset1 \<and> \<not> IsReady (AssetManager_GetAsset Env1 (GetId Asset1) (GetType Asset1)) \<and>
   \<not> azrtti_istypeof Env1 (m_baseAssetType Database1) (Get Asset1) \<and>
   m_handlers Database1 (GetType Asset1) = None \<and>
   FindOrCreate Env0 3 Asset1 Database1 =
     Inr (Some 0, emit (Error ''InstanceDatabase::FindOrCreate found the requested instance, but a different asset was used to create it.'')
                    (emit (shared_lock m_databaseMutex) Database1))"
  using cache_hit_returns_stored [of Env1 3 Database1 0 Asset1]
    cache_hit_returns_stored [of Env0 3 Database1 0 Asset1
      "\<lparr>m_id = 3, m_parentDatabase = Some 4096, m_assetId = 5, m_assetType = 6, m_useCount = 0\<rparr>"]
  by (simp add: Env0_fields Env1_fields Database1_fields Asset_fields AZ_Error_def)

subsection \<open>Construction\<close>

text \<open>
  Claim C4. When \<open>FindOrCreate(id, asset)\<close> returns an instance for an id that was not in
  the table, it has called a create function once, the instance has \<open>m_id\<close> equal to
  \<open>id\<close>, \<open>m_assetId\<close> and \<open>m_assetType\<close> equal to the id and the type of the loaded asset,
  and \<open>m_parentDatabase\<close> pointing to this database; the table maps \<open>id\<close> to the
  instance, and \<open>Find(id)\<close> returns it.
\<close>

theorem construction_stamps_and_inserts:
  assumes "FindOrCreate E k a s = Inr (Some p, s')" and "m_database s k = None"
  shows "\<exists>obj. heap s' p = Some obj \<and>
           m_id obj = k \<and>
           m_assetId obj = GetId (fst (FindOrCreate_load E a s)) \<and>
           m_assetType obj = GetType (fst (FindOrCreate_load E a s)) \<and>
           m_parentDatabase obj = Some (this s') \<and>
           IsReady (fst (FindOrCreate_load E a s)) \<and>
           m_database s' k = Some p \<and>
           fst (Find k s') = Some p \<and>
           created (trace s') = Suc (created (trace s))"
proof -
  let ?aL = "fst (FindOrCreate_load E a s)"
  from FindOrCreate_cases [OF assms(1)] assms(2)
  have p: "p = brk s" and c: "constructed_by k ?aL s s'" and v: "IsValid E k" by auto
  from c obtain obj0 where hp: "heap s' = (heap s)(brk s \<mapsto> stamp k (this s) ?aL obj0)"
    and db: "m_database s' = (m_database s)(k \<mapsto> brk s)" and th: "this s' = this s"
    and cr: "created (trace s') = Suc (created (trace s))"
    by (auto simp: constructed_by_def)
  have ready: "IsReady ?aL"
  proof (rule ccontr)
    assume "\<not> IsReady ?aL"
    with FindOrCreate_not_found [of E k s a] v assms(2) assms(1) show False by auto
  qed
  from hp db th cr p ready show ?thesis
    by (simp add: stamp_def Find_def Let_def)
qed

theorem construction_stamps_and_inserts_witness:
  "FindOrCreate Env0 3 Asset0 Database0 = Inr (Some 0, Database1) \<and>
   m_database Database0 3 = None \<and>
   (\<exists>obj. heap Database1 0 = Some obj \<and> m_id obj = 3 \<and> m_assetId obj = 5 \<and>
      m_assetType obj = 6 \<and> m_parentDatabase obj = Some 4096 \<and>
      m_database Database1 3 = Some 0 \<and> fst (Find 3 Database1) = Some 0 \<and>
      created (trace Database1) = Suc (created (trace Database0)))"
  using construction_stamps_and_inserts [OF FindOrCreate_Database0]
  by (simp add: Database0_fields Database1_fields FindOrCreate_Database0 FindOrCreate_load_def
      Asset_fields Env0_fields)

subsection \<open>Assets outside the base asset type\<close>

text \<open>
  A call that no other thread interleaves with. When the id is valid and not in the
  table, the asset is loaded, and its data is not of the base asset type of the
  database, \<open>FindOrCreate\<close> returns no instance, calls no create function and leaves the
  table as it is. Where a handler is registered for the type of the asset it reports
  the assertion and returns at once, without taking the unique lock; where none is
  registered it goes on to the unique lock and returns through the branch that warns
  of the missing handler.
\<close>

lemma non_subtype_asset_rejected:
  assumes "IsValid E k" and "m_database s k = None"
    and "IsReady (fst (FindOrCreate_load E a s))"
    and "\<not> azrtti_istypeof E (m_baseAssetType s) (Get (fst (FindOrCreate_load E a s)))"
  shows "\<exists>s'. FindOrCreate E k a s = Inr (None, s') \<and>
           m_database s' = m_database s \<and> heap s' = heap s \<and>
           created (trace s') = created (trace s) \<and>
           trace s' =
             trace (snd (FindOrCreate_load E a (emit (shared_lock m_databaseMutex) s))) @
             (case m_handlers s (GetType (fst (FindOrCreate_load E a s))) of
                Some h \<Rightarrow>
                  [shared_lock m_handlersMutex] @
                  (if AZ_ENABLE_TRACING E
                   then [Assert ''An InstanceHandler was added for asset type %s which is not a subclass of the base asset type %s.'']
                   else [])
              | None \<Rightarrow>
                  [shared_lock m_handlersMutex, unique_lock m_databaseMutex,
                   shared_lock m_handlersMutex] @
                  (if AZ_ENABLE_TRACING E
                   then [Warning ''No InstanceHandler found for asset type %s'']
                   else []))"
proof -
  let ?s1 = "emit (shared_lock m_databaseMutex) s"
  let ?aL = "fst (FindOrCreate_load E a ?s1)"
  let ?s2 = "snd (FindOrCreate_load E a ?s1)"
  have aL: "fst (FindOrCreate_load E a s) = ?aL" by (rule FindOrCreate_load_fst)
  from assms(3,4) aL have ready: "IsReady ?aL"
    and nt: "\<not> azrtti_istypeof E (m_baseAssetType ?s2) (Get ?aL)" by simp_all
  have cr: "created (trace ?s2) = created (trace s)"
    using FindOrCreate_load_state [of ?s1 E a] by simp
  show ?thesis
  proof (cases "m_handlers s (GetType ?aL)")
    case (Some h)
    with nt have tc: "FindOrCreate_typecheck E ?aL ?s2 =
        (True, AZ_Assert E False
           ''An InstanceHandler was added for asset type %s which is not a subclass of the base asset type %s.''
           (emit (shared_lock m_handlersMutex) ?s2))"
      by (simp add: FindOrCreate_typecheck_def FindHandler_eq)
    from assms(1,2) ready tc Some aL cr show ?thesis
      by (simp add: FindOrCreate_miss AZ_Assert_def)
  next
    case None
    with nt have tc: "FindOrCreate_typecheck E ?aL ?s2 = (False, emit (shared_lock m_handlersMutex) ?s2)"
      by (simp add: FindOrCreate_typecheck_def FindHandler_eq)
    from assms(1,2) ready tc None aL cr show ?thesis
      by (simp add: FindOrCreate_miss FindOrCreate_locked_def FindOrCreate_emplace_def
          FindHandler_eq Let_def AZ_Warning_def)
  qed
qed

lemma non_subtype_asset_rejected_example:
  "\<not> azrtti_istypeof Env0 (m_baseAssetType Database1) (Get Asset2) \<and>
   m_handlers Database1 (GetType Asset2) = None \<and>
   (\<exists>s'. FindOrCreate Env0 4 Asset2 Database1 = Inr (None, s') \<and>
      m_database s' = m_database Database1 \<and>
      trace s' = trace Database1 @
        [shared_lock m_databaseMutex, shared_lock m_handlersMutex, unique_lock m_databaseMutex,
         shared_lock m_handlersMutex, Warning ''No InstanceHandler found for asset type %s'']) \<and>
   m_handlers Database4 15 = Some Handler0 \<and>
   (\<exists>s'. FindOrCreate Env0 4 Asset4 Database4 = Inr (None, s') \<and>
      m_database s' = m_database Database4 \<and>
      trace s' = trace Database4 @
        [shared_lock m_databaseMutex, GetAsset 9 15, shared_lock m_handlersMutex,
         Assert ''An InstanceHandler was added for asset type %s which is not a subclass of the base asset type %s.''])"
  using non_subtype_asset_rejected [of Env0 4 Database1 Asset2]
    non_subtype_asset_rejected [of Env0 4 Database4 Asset4]
  by (auto simp add: Env0_fields Database1_fields Database4_fields Asset_fields Asset4_fields
      FindOrCreate_load_def)

text \<open>
  Claim C6. The claim, and the comment on \<open>m_baseAssetType\<close> ("All instances created by
  this InstanceDatabase will be for assets derived from this type"), do not hold of a
  call that \<open>AddHandler\<close> interleaves with. The type check looks the handler up under
  \<open>m_handlersMutex\<close> and holds no lock afterwards; the insertion looks it up again and
  does not check the type. In \<open>Database1\<close> a thread calls \<open>FindOrCreate(4, Asset2)\<close>:
  \<open>Asset2\<close> is loaded, of type 9, not of the base type 2, and type 9 has no handler, so
  the thread passes the type check. Another thread then registers a handler for type 9.
  The first thread, in its last section, finds that handler, calls its create function,
  and inserts and returns instance 1 for the asset, with no assertion.
\<close>

theorem non_subtype_asset_inserted_after_AddHandler:
  "IsValid Env0 4 \<and> m_database Database1 4 = None \<and> IsReady Asset2 \<and>
   \<not> azrtti_istypeof Env0 (m_baseAssetType Database1) (Get Asset2) \<and>
   m_handlers Database1 (GetType Asset2) = None \<and>
   run Env0 [0, 0, 0] ([at_entry 4 Asset2], Database1) =
     Inr ([at_lock 4 Asset2 Asset2], Database5) \<and>
   run Env0 [0] ([at_lock 4 Asset2 Asset2], AddHandler Env0 9 Handler0 Database5) =
     Inr ([returned (Some 1)], Database6) \<and>
   m_database Database6 4 = Some 1 \<and>
   map_option m_assetType (heap Database6 1) = Some 9 \<and>
   created (trace Database6) = Suc (created (trace Database1)) \<and>
   Assert ''An InstanceHandler was added for asset type %s which is not a subclass of the base asset type %s.''
     \<notin> set (trace Database6)"
proof -
  have before: "IsValid Env0 4 \<and> m_database Database1 4 = None \<and> IsReady Asset2 \<and>
      \<not> azrtti_istypeof Env0 (m_baseAssetType Database1) (Get Asset2) \<and>
      m_handlers Database1 (GetType Asset2) = None"
    by (simp add: Env0_fields Asset_fields Database1_fields)
  have after: "m_database Database6 4 = Some 1 \<and>
      map_option m_assetType (heap Database6 1) = Some 9 \<and>
      created (trace Database6) = Suc (created (trace Database1)) \<and>
      Assert ''An InstanceHandler was added for asset type %s which is not a subclass of the base asset type %s.''
        \<notin> set (trace Database6)"
    by (simp add: Database6_def Database5_fields Database1_fields stamp_def Asset_fields)
  from before after run_to_lock_Database1 run_lock_after_AddHandler show ?thesis
    by blast
qed

subsection \<open>Random keys and keys made from the asset\<close>

text \<open>
  Claim C8. \<open>Create(asset)\<close> is \<open>FindOrCreate\<close> at the id that \<open>CreateRandom\<close> returned.
  With random ids that are unique (different from each other and from the keys of the
  table), two calls of \<open>Create\<close> with the same asset that return instances return two
  different instances, stored under the two different keys, and have called a create
  function twice.
\<close>

theorem Create_twice_distinct:
  assumes "Create E r1 a s = Inr (Some p1, s1)" and "Create E r2 a s1 = Inr (Some p2, s2)"
    and "r1 \<noteq> r2" and "m_database s r1 = None" and "m_database s r2 = None"
  shows "Create E r1 a s = FindOrCreate E r1 a s \<and>
         p1 \<noteq> p2 \<and> m_database s2 r1 = Some p1 \<and> m_database s2 r2 = Some p2 \<and>
         created (trace s2) = created (trace s) + 2"
proof -
  from assms(1) have f1: "FindOrCreate E r1 a s = Inr (Some p1, s1)" by (simp add: Create_def)
  from assms(2) have f2: "FindOrCreate E r2 a s1 = Inr (Some p2, s2)" by (simp add: Create_def)
  from FindOrCreate_cases [OF f1] assms(4)
  have p1: "p1 = brk s" and c1: "constructed_by r1 (fst (FindOrCreate_load E a s)) s s1"
    by auto
  from c1 have db1: "m_database s1 = (m_database s)(r1 \<mapsto> brk s)" and b1: "brk s1 = Suc (brk s)"
    and cr1: "created (trace s1) = Suc (created (trace s))"
    by (simp_all add: constructed_by_def)
  from db1 assms(3,5) have n2: "m_database s1 r2 = None" by simp
  from FindOrCreate_cases [OF f2] n2
  have p2: "p2 = brk s1" and c2: "constructed_by r2 (fst (FindOrCreate_load E a s1)) s1 s2"
    by auto
  from c2 have db2: "m_database s2 = (m_database s1)(r2 \<mapsto> brk s1)"
    and cr2: "created (trace s2) = Suc (created (trace s1))"
    by (simp_all add: constructed_by_def)
  from p1 p2 b1 db1 db2 cr1 cr2 assms(3) show ?thesis
    by (simp add: Create_def)
qed

theorem Create_twice_distinct_witness:
  "Create Env0 3 Asset0 Database0 = Inr (Some 0, Database1) \<and>
   (\<exists>s2. Create Env0 7 Asset0 Database1 = Inr (Some 1, s2) \<and>
      m_database s2 3 = Some 0 \<and> m_database s2 7 = Some 1 \<and>
      created (trace s2) = created (trace Database0) + 2)"
proof -
  have c1: "Create Env0 3 Asset0 Database0 = Inr (Some 0, Database1)"
    by (simp add: Create_def FindOrCreate_Database0)
  from FindOrCreate_Database1_7 obtain s2 where
    c2: "Create Env0 7 Asset0 Database1 = Inr (Some 1, s2)" ..
  from Create_twice_distinct [OF c1 c2] c1 c2 show ?thesis
    by (simp add: Database0_fields)
qed

text \<open>
  Claim C9. The keyless \<open>FindOrCreate(asset)\<close> is \<open>FindOrCreate\<close> at the key that
  \<open>CreateFromAssetId\<close> makes from the id of the asset, so two assets with the same id
  address the same key. When a call from a reachable state has returned an instance,
  the table maps that key to the instance (which the call has just constructed, with
  one create call, if the key was not in the table). The next call, with an asset of
  the same id, returns that instance and only takes the shared lock of the table (and
  compares the asset ids in a debug build): it calls no create function.
\<close>

theorem keyless_FindOrCreate_repeats:
  assumes "reachable E s" and "FindOrCreate_asset E a s = Inr (Some p, s1)"
    and "GetId a' = GetId a"
  shows "FindOrCreate_asset E a s = FindOrCreate E (CreateFromAssetId E (GetId a)) a s \<and>
         FindOrCreate_asset E a' s1 = FindOrCreate E (CreateFromAssetId E (GetId a)) a' s1 \<and>
         IsValid E (CreateFromAssetId E (GetId a)) \<and>
         m_database s1 (CreateFromAssetId E (GetId a)) = Some p \<and>
         (m_database s (CreateFromAssetId E (GetId a)) = None \<longrightarrow>
            p = brk s \<and> heap s p = None \<and>
            created (trace s1) = Suc (created (trace s))) \<and>
         (\<exists>obj. heap s1 p = Some obj \<and> m_id obj = CreateFromAssetId E (GetId a) \<and>
            FindOrCreate_asset E a' s1 =
              Inr (Some p,
                   if AZ_DEBUG_BUILD E
                   then AZ_Error E (m_assetId obj = GetId a')
                     ''InstanceDatabase::FindOrCreate found the requested instance, but a different asset was used to create it.''
                     (emit (shared_lock m_databaseMutex) s1)
                   else emit (shared_lock m_databaseMutex) s1))"
proof -
  let ?k = "CreateFromAssetId E (GetId a)"
  from assms(2) have f1: "FindOrCreate E ?k a s = Inr (Some p, s1)"
    by (simp add: FindOrCreate_asset_def)
  from assms(1) f1 have "reachable E s1" by (rule reachable.after_FindOrCreate)
  then have w1: "consistent E s1" by (rule reachable_consistent)
  from assms(1) have w0: "consistent E s" by (rule reachable_consistent)
  from FindOrCreate_cases [OF f1] have v: "IsValid E ?k" and db: "m_database s1 ?k = Some p"
    by (auto simp: same_objects_def constructed_by_def)
  have fresh: "m_database s ?k = None \<longrightarrow>
      p = brk s \<and> heap s p = None \<and> created (trace s1) = Suc (created (trace s))"
  proof
    assume n: "m_database s ?k = None"
    with FindOrCreate_cases [OF f1] have "p = brk s"
      and "constructed_by ?k (fst (FindOrCreate_load E a s)) s s1" by auto
    moreover from w0 have "heap s (brk s) = None"
      by (cases "heap s (brk s)") (auto simp: consistent_def)
    ultimately show "p = brk s \<and> heap s p = None \<and> created (trace s1) = Suc (created (trace s))"
      by (simp add: constructed_by_def)
  qed
  from consistent_entry [OF w1 db] obtain obj where obj: "heap s1 p = Some obj" "m_id obj = ?k"
    by blast
  from obj have "heap (emit (shared_lock m_databaseMutex) s1) p = Some obj" by simp
  from ValidateSameAsset_live [OF this, of E a'] v db assms(3)
  have "FindOrCreate_asset E a' s1 =
              Inr (Some p,
                   if AZ_DEBUG_BUILD E
                   then AZ_Error E (m_assetId obj = GetId a')
                     ''InstanceDatabase::FindOrCreate found the requested instance, but a different asset was used to create it.''
                     (emit (shared_lock m_databaseMutex) s1)
                   else emit (shared_lock m_databaseMutex) s1)"
    by (simp add: FindOrCreate_asset_def FindOrCreate_hit)
  with obj v db fresh assms(3) show ?thesis
    by (auto simp: FindOrCreate_asset_def)
qed

theorem keyless_FindOrCreate_repeats_witness:
  "CreateFromAssetId Env0 (GetId Asset0) = 6 \<and> m_database Database0 6 = None \<and>
   (\<exists>s1 s2. FindOrCreate_asset Env0 Asset0 Database0 = Inr (Some 0, s1) \<and>
      m_database s1 6 = Some 0 \<and>
      created (trace s1) = Suc (created (trace Database0)) \<and>
      FindOrCreate_asset Env0 Asset0 s1 = Inr (Some 0, s2) \<and>
      created (trace s2) = created (trace s1) \<and>
      m_database s2 = m_database s1 \<and> heap s2 = heap s1)"
proof -
  have key: "CreateFromAssetId Env0 (GetId Asset0) = 6" "m_database Database0 6 = None"
    by (simp_all add: Env0_fields Asset_fields Database0_fields)
  from FindOrCreate_asset_Database0_state obtain s1 where
    f1: "FindOrCreate_asset Env0 Asset0 Database0 = Inr (Some 0, s1)" by blast
  note T = keyless_FindOrCreate_repeats [OF reachable_Database0 f1 refl]
  from T key have k: "m_database s1 6 = Some 0" by simp
  from T key have c: "created (trace s1) = Suc (created (trace Database0))" by simp
  note T6 = T [THEN conjunct2, THEN conjunct2, THEN conjunct2, THEN conjunct2, THEN conjunct2]
  from T6 obtain obj :: "(nat, nat, nat) InstanceData" where f2': "FindOrCreate_asset Env0 Asset0 s1 =
       Inr (Some 0,
            if AZ_DEBUG_BUILD Env0
            then AZ_Error Env0 (m_assetId obj = GetId Asset0)
              ''InstanceDatabase::FindOrCreate found the requested instance, but a different asset was used to create it.''
              (emit (shared_lock m_databaseMutex) s1)
            else emit (shared_lock m_databaseMutex) s1)"
    by blast
  define s2 where "s2 = AZ_Error Env0 (m_assetId obj = GetId Asset0)
              ''InstanceDatabase::FindOrCreate found the requested instance, but a different asset was used to create it.''
              (emit (shared_lock m_databaseMutex) s1)"
  from f2' have f2: "FindOrCreate_asset Env0 Asset0 s1 = Inr (Some 0, s2)"
    by (simp add: s2_def Env0_fields)
  have s2: "\<exists>b. s2 = AZ_Error Env0 b
         ''InstanceDatabase::FindOrCreate found the requested instance, but a different asset was used to create it.''
         (emit (shared_lock m_databaseMutex) s1)"
    unfolding s2_def by blast
  from s2 have "created (trace s2) = created (trace s1) \<and> m_database s2 = m_database s1 \<and>
      heap s2 = heap s1" by auto
  with key f1 k c f2 show ?thesis by blast
qed

subsection \<open>Release\<close>

text \<open>
  Claim C2, as the code has it. In a reachable state, \<open>ReleaseInstance(instance, key)\<close>
  removes the entry of \<open>key\<close> exactly when the table maps \<open>key\<close> to \<open>instance\<close> and the
  count of the instance is 0, which the call exchanges for -1. It then looks up the
  handler of the asset type of the instance and calls the delete function of that
  handler on the instance, which ends its lifetime. Where no handler is registered for
  that type it calls no delete function and the retired instance stays; it reports the
  assertion where the trace macros are compiled in, and nothing in a build without
  them. In every other case the call only takes the lock: table and instances are
  unchanged; there is no further case, since an instance in the table is live. No
  instance is handed to a delete function twice.
\<close>

theorem ReleaseInstance_effect:
  assumes "reachable E s"
  shows "(m_database s k = Some p \<and> heap s p = Some obj \<and> m_useCount obj = 0 \<longrightarrow>
            (\<exists>s'. ReleaseInstance E p k s = Inr s' \<and>
               m_database s' = (m_database s)(k := None) \<and>
               m_handlers s' = m_handlers s \<and>
               (case m_handlers s (m_assetType obj) of
                  Some h \<Rightarrow>
                    trace s' = trace s @
                      [unique_lock m_databaseMutex, shared_lock m_handlersMutex,
                       DeleteCall (m_deleteFunction h) p] \<and>
                    heap s' = (heap s)(p := None)
                | None \<Rightarrow>
                    trace s' = trace s @
                      [unique_lock m_databaseMutex, shared_lock m_handlersMutex] @
                      (if AZ_ENABLE_TRACING E
                       then [Assert ''Cannot delete Instance. No InstanceHandler found for asset type %s'']
                       else []) \<and>
                    heap s' = (heap s)(p \<mapsto> obj\<lparr>m_useCount := - 1\<rparr>)))) \<and>
         (m_database s k \<noteq> Some p \<or> (\<exists>obj. heap s p = Some obj \<and> m_useCount obj \<noteq> 0) \<longrightarrow>
            ReleaseInstance E p k s = Inr (emit (unique_lock m_databaseMutex) s)) \<and>
         (\<exists>s'. ReleaseInstance E p k s = Inr s' \<and> distinct (deleted (trace s'))) \<and>
         (m_database s k = Some p \<longrightarrow> (\<exists>obj. heap s p = Some obj \<and> m_id obj = k))"
proof (intro conjI impI)
  assume h: "m_database s k = Some p \<and> heap s p = Some obj \<and> m_useCount obj = 0"
  from reachable_consistent [OF assms] h have id: "m_id obj = k"
    using consistent_entry [of E s k p] by auto
  from h id show "\<exists>s'. ReleaseInstance E p k s = Inr s' \<and>
               m_database s' = (m_database s)(k := None) \<and>
               m_handlers s' = m_handlers s \<and>
               (case m_handlers s (m_assetType obj) of
                  Some h \<Rightarrow>
                    trace s' = trace s @
                      [unique_lock m_databaseMutex, shared_lock m_handlersMutex,
                       DeleteCall (m_deleteFunction h) p] \<and>
                    heap s' = (heap s)(p := None)
                | None \<Rightarrow>
                    trace s' = trace s @
                      [unique_lock m_databaseMutex, shared_lock m_handlersMutex] @
                      (if AZ_ENABLE_TRACING E
                       then [Assert ''Cannot delete Instance. No InstanceHandler found for asset type %s'']
                       else []) \<and>
                    heap s' = (heap s)(p \<mapsto> obj\<lparr>m_useCount := - 1\<rparr>))"
    by (simp add: ReleaseInstance_zero AZ_Assert_def split: option.splits)
next
  assume "m_database s k \<noteq> Some p \<or> (\<exists>obj. heap s p = Some obj \<and> m_useCount obj \<noteq> 0)"
  then show "ReleaseInstance E p k s = Inr (emit (unique_lock m_databaseMutex) s)"
    by (rule ReleaseInstance_other)
next
  have "\<exists>s'. ReleaseInstance E p k s = Inr s'"
  proof (cases "m_database s k = Some p")
    case False
    then show ?thesis by (simp add: ReleaseInstance_other)
  next
    case True
    from consistent_entry [OF reachable_consistent [OF assms] True]
    obtain obj where obj: "heap s p = Some obj" by blast
    show ?thesis
    proof (cases "m_useCount obj = 0")
      case True
      with \<open>m_database s k = Some p\<close> obj show ?thesis by (simp add: ReleaseInstance_zero)
    next
      case False
      with obj show ?thesis by (simp add: ReleaseInstance_other)
    qed
  qed
  then obtain s' where r: "ReleaseInstance E p k s = Inr s'" ..
  with assms have "reachable E s'" by (rule reachable.after_ReleaseInstance)
  then have "distinct (deleted (trace s'))"
    using reachable_consistent by (auto simp: consistent_def)
  with r show "\<exists>s'. ReleaseInstance E p k s = Inr s' \<and> distinct (deleted (trace s'))" by blast
next
  assume "m_database s k = Some p"
  from consistent_entry [OF reachable_consistent [OF assms] this]
  show "\<exists>obj. heap s p = Some obj \<and> m_id obj = k" by blast
qed

theorem ReleaseInstance_effect_witness:
  "reachable Env0 Database1 \<and> m_database Database1 3 = Some 0 \<and>
   m_handlers Database1 6 = Some Handler0 \<and> m_deleteFunction Handler0 = default_delete \<and>
   (\<exists>s'. ReleaseInstance Env0 0 3 Database1 = Inr s' \<and> m_database s' 3 = None \<and>
      trace s' = trace Database1 @
        [unique_lock m_databaseMutex, shared_lock m_handlersMutex,
         DeleteCall default_delete 0] \<and>
      heap s' 0 = None) \<and>
   (\<exists>s'. ReleaseInstance Env0 0 3 Database2 = Inr s' \<and> m_database s' 3 = None \<and>
      trace s' = trace Database2 @
        [unique_lock m_databaseMutex, shared_lock m_handlersMutex,
         Assert ''Cannot delete Instance. No InstanceHandler found for asset type %s'']) \<and>
   (\<exists>s'. ReleaseInstance Env1 0 3 Database2 = Inr s' \<and> m_database s' 3 = None \<and>
      trace s' = trace Database2 @
        [unique_lock m_databaseMutex, shared_lock m_handlersMutex]) \<and>
   ReleaseInstance Env0 0 4 Database1 = Inr (emit (unique_lock m_databaseMutex) Database1) \<and>
   ReleaseInstance Env0 1 3 Database1 = Inr (emit (unique_lock m_databaseMutex) Database1)"
  using ReleaseInstance_effect [OF reachable_Database1, of 3 0
        "\<lparr>m_id = 3, m_parentDatabase = Some 4096, m_assetId = 5, m_assetType = 6, m_useCount = 0\<rparr>"]
     ReleaseInstance_effect [OF reachable_Database2, of 3 0
        "\<lparr>m_id = 3, m_parentDatabase = Some 4096, m_assetId = 5, m_assetType = 6, m_useCount = 0\<rparr>"]
     ReleaseInstance_effect [OF reachable_Env1_Database2, of 3 0
        "\<lparr>m_id = 3, m_parentDatabase = Some 4096, m_assetId = 5, m_assetType = 6, m_useCount = 0\<rparr>"]
     ReleaseInstance_effect [OF reachable_Database1, of 4 0]
     ReleaseInstance_effect [OF reachable_Database1, of 3 1]
     reachable_Database1
  by (auto simp add: Database1_fields Database2_fields Database2_more Env0_fields Env1_fields
      Handler0_def)

text \<open>
  Claim C2 as stated, that the entry is removed and the delete function is called
  whenever the table maps the key to the instance and the count goes from 0 to -1,
  fails after \<open>RemoveHandler\<close>: in \<open>Database2\<close> the entry of key 3 is removed, the count
  of instance 0 becomes -1, and no delete function is called.
\<close>

theorem ReleaseInstance_without_handler:
  "m_database Database2 3 = Some 0 \<and>
   map_option m_useCount (heap Database2 0) = Some 0 \<and>
   \<not> isl (ReleaseInstance Env0 0 3 Database2) \<and>
   m_database (projr (ReleaseInstance Env0 0 3 Database2)) 3 = None \<and>
   map_option m_useCount (heap (projr (ReleaseInstance Env0 0 3 Database2)) 0) = Some (- 1) \<and>
   deleted (trace (projr (ReleaseInstance Env0 0 3 Database2))) = []"
  by (simp add: Database2_fields
      ReleaseInstance_zero [of Database2 3 0
        "\<lparr>m_id = 3, m_parentDatabase = Some 4096, m_assetId = 5, m_assetType = 6, m_useCount = 0\<rparr>"]
      AZ_Assert_def)

subsection \<open>Threads racing for one key\<close>

text \<open>The sections of \<open>thread_step\<close>, run one after the other, are \<open>FindOrCreate\<close>.\<close>

lemma run_single_thread:
  "run E [0, 0, 0, 0] ([at_entry k a], s) =
     (case FindOrCreate E k a s of
        Inl f \<Rightarrow> Inl f
      | Inr (r, s') \<Rightarrow> Inr ([returned r], s'))"
proof (cases "IsValid E k")
  case False
  then show ?thesis by (simp add: sched_step_0 FindOrCreate_invalid)
next
  case True
  show ?thesis
  proof (cases "m_database s k")
    case (Some p)
    with True show ?thesis
      by (simp add: sched_step_0 FindOrCreate_hit Let_def split: sum.splits)
  next
    case None
    let ?s1 = "emit (shared_lock m_databaseMutex) s"
    let ?aL = "fst (FindOrCreate_load E a ?s1)"
    let ?s2 = "snd (FindOrCreate_load E a ?s1)"
    from True None have st1: "sched_step E 0 ([at_entry k a], s) = Inr ([at_load k a], ?s1)"
      by (simp add: sched_step_0 Let_def)
    show ?thesis
    proof (cases "IsReady ?aL")
      case False
      then have "sched_step E 0 ([at_load k a], ?s1) = Inr ([returned None], ?s2)"
        by (simp add: sched_step_0 case_prod_beta)
      with st1 False True None show ?thesis
        by (simp add: FindOrCreate_miss sched_step_0)
    next
      case ready: True
      then have st2: "sched_step E 0 ([at_load k a], ?s1) = Inr ([at_typecheck k a ?aL], ?s2)"
        by (simp add: sched_step_0 case_prod_beta)
      let ?b = "fst (FindOrCreate_typecheck E ?aL ?s2)"
      let ?s3 = "snd (FindOrCreate_typecheck E ?aL ?s2)"
      show ?thesis
      proof (cases ?b)
        case True
        then have "sched_step E 0 ([at_typecheck k a ?aL], ?s2) = Inr ([returned None], ?s3)"
          by (simp add: sched_step_0 case_prod_beta)
        with st1 st2 True ready \<open>IsValid E k\<close> None show ?thesis
          by (simp add: FindOrCreate_miss sched_step_0)
      next
        case False
        then have st3: "sched_step E 0 ([at_typecheck k a ?aL], ?s2) = Inr ([at_lock k a ?aL], ?s3)"
          by (simp add: sched_step_0 case_prod_beta)
        have st4: "sched_step E 0 ([at_lock k a ?aL], ?s3) =
             (case FindOrCreate_locked E k a ?aL ?s3 of
                Inl f \<Rightarrow> Inl f | Inr (r, s') \<Rightarrow> Inr ([returned r], s'))"
          by (simp add: sched_step_0 split: sum.splits)
        from st1 st2 st3 st4 False ready \<open>IsValid E k\<close> None show ?thesis
          by (simp add: FindOrCreate_miss split: sum.splits)
      qed
    qed
  qed
qed

lemma race_step_entry:
  assumes "IsValid E k" and "\<forall>p. m_database s k = Some p \<longrightarrow> heap s p \<noteq> None"
  shows "\<exists>t' s'. thread_step E (at_entry k a) s = Inr (t', s') \<and>
           (t' = at_load k a \<or> (\<exists>r. t' = returned r)) \<and>
           race_step k (at_entry k a) s t' s'"
proof (cases "m_database s k")
  case None
  with assms(1) show ?thesis by (simp add: Let_def race_step_def)
next
  case (Some p)
  with assms(2) obtain obj where obj: "heap s p = Some obj"
    by auto
  then have "heap (emit (shared_lock m_databaseMutex) s) p = Some obj" by simp
  from assms(1) Some obj ValidateSameAsset_live [OF this, of E a] show ?thesis
    by (simp add: Let_def race_step_def)
qed

lemma race_step_load:
  assumes "IsReady (fst (FindOrCreate_load E a s0))"
    and "\<forall>p. m_database s k = Some p \<longrightarrow> heap s p \<noteq> None"
  shows "\<exists>t' s'. thread_step E (at_load k a) s = Inr (t', s') \<and>
           t' = at_typecheck k a (fst (FindOrCreate_load E a s0)) \<and>
           race_step k (at_load k a) s t' s'"
proof -
  have "fst (FindOrCreate_load E a s) = fst (FindOrCreate_load E a s0)"
    by (rule FindOrCreate_load_fst)
  with assms have "thread_step E (at_load k a) s =
      Inr (at_typecheck k a (fst (FindOrCreate_load E a s0)), snd (FindOrCreate_load E a s))"
    by (simp add: case_prod_beta)
  moreover from FindOrCreate_load_state [of s E a]
  have "race_step k (at_load k a) s (at_typecheck k a (fst (FindOrCreate_load E a s0)))
          (snd (FindOrCreate_load E a s))"
    using assms(2) by (auto simp: race_step_def same_objects_def split: option.splits)
  ultimately show ?thesis by simp
qed

lemma race_step_typecheck:
  assumes "azrtti_istypeof E (m_baseAssetType s) (Get aL)"
    and "\<forall>p. m_database s k = Some p \<longrightarrow> heap s p \<noteq> None"
  shows "\<exists>t' s'. thread_step E (at_typecheck k a aL) s = Inr (t', s') \<and>
           t' = at_lock k a aL \<and> race_step k (at_typecheck k a aL) s t' s'"
  using assms
  by (auto simp: FindOrCreate_typecheck_def race_step_def split: option.splits)

lemma race_step_lock:
  assumes "IsValid E k"
    and "m_handlers s (GetType aL) = Some h" and "m_createFunction h = Some c"
    and "c (Get aL) = Some obj"
    and "\<forall>p. m_database s k = Some p \<longrightarrow> heap s p \<noteq> None"
  shows "\<exists>t' s'. thread_step E (at_lock k a aL) s = Inr (t', s') \<and>
           (\<exists>r. t' = returned r) \<and> race_step k (at_lock k a aL) s t' s'"
proof (cases "m_database s k")
  case None
  with assms(2-4) show ?thesis
    by (simp add: FindOrCreate_locked_def FindOrCreate_emplace_def FindHandler_eq Let_def
        race_step_def emplace_def)
next
  case (Some p)
  with assms(5) obtain ob where ob: "heap s p = Some ob"
    by auto
  then have "heap (emit (unique_lock m_databaseMutex) s) p = Some ob" by simp
  from Some ob ValidateSameAsset_live [OF this, of E a] show ?thesis
    by (simp add: FindOrCreate_locked_def Let_def race_step_def)
qed

lemma race_step_returned:
  assumes "\<forall>p. m_database s k = Some p \<longrightarrow> heap s p \<noteq> None"
  shows "\<exists>t' s'. thread_step E (returned r) s = Inr (t', s') \<and>
           t' = returned r \<and> race_step k (returned r) s t' s'"
  using assms by (auto simp: race_step_def split: option.splits)

lemma rank_le_4: "rank t \<le> 4"
  by (cases t) simp_all

lemma thread_step_race:
  assumes c: "constructible E k a s0" and inv: "race_inv E k a s0 ts s" and i: "i < length ts"
  shows "\<exists>t' s'. thread_step E (ts ! i) s = Inr (t', s') \<and>
           race_inv E k a s0 (ts[i := t']) s' \<and> min 4 (Suc (rank (ts ! i))) \<le> rank t'"
proof -
  let ?aL = "fst (FindOrCreate_load E a s0)"
  let ?ok = "\<lambda>t. t = at_entry k a \<or> t = at_load k a \<or> t = at_typecheck k a ?aL \<or>
                  t = at_lock k a ?aL \<or> (\<exists>r. t = returned r)"
  from c obtain h cf obj where valid: "IsValid E k" and ready: "IsReady ?aL"
    and sub: "azrtti_istypeof E (m_baseAssetType s0) (Get ?aL)"
    and h: "m_handlers s0 (GetType ?aL) = Some h" "m_createFunction h = Some cf"
           "cf (Get ?aL) = Some obj"
    by (auto simp: constructible_def)
  from inv have hs: "m_handlers s = m_handlers s0" and bs: "m_baseAssetType s = m_baseAssetType s0"
    and ok: "\<forall>t \<in> set ts. ?ok t"
    and live: "\<forall>p. m_database s k = Some p \<longrightarrow> heap s p \<noteq> None"
    by (auto simp: race_inv_def)
  from ok i have "?ok (ts ! i)" by simp
  then have "\<exists>t' s'. thread_step E (ts ! i) s = Inr (t', s') \<and> ?ok t' \<and>
               race_step k (ts ! i) s t' s'"
  proof (elim disjE exE)
    assume "ts ! i = at_entry k a"
    with race_step_entry [OF valid live, of a] show ?thesis by auto
  next
    assume "ts ! i = at_load k a"
    with race_step_load [OF ready live] show ?thesis by auto
  next
    assume t: "ts ! i = at_typecheck k a ?aL"
    from sub bs have "azrtti_istypeof E (m_baseAssetType s) (Get ?aL)" by simp
    from race_step_typecheck [OF this live, of a] t show ?thesis by auto
  next
    assume t: "ts ! i = at_lock k a ?aL"
    from h hs have "m_handlers s (GetType ?aL) = Some h" by simp
    from race_step_lock [OF valid this h(2,3) live, of a] t show ?thesis by auto
  next
    fix r assume "ts ! i = returned r"
    with race_step_returned [OF live, of E r] show ?thesis by auto
  qed
  then obtain t' s' where st: "thread_step E (ts ! i) s = Inr (t', s')" and ok': "?ok t'"
    and rs: "race_step k (ts ! i) s t' s'" by blast
  have sub_set: "\<And>x. x \<in> set (ts[i := t']) \<Longrightarrow> x = t' \<or> x \<in> set ts"
    using set_update_subset_insert [of ts i t'] by auto
  have mem: "ts ! i \<in> set ts" using i by simp
  have "race_inv E k a s0 (ts[i := t']) s'"
  proof (cases "m_database s k")
    case None
    with inv have cr: "created (trace s) = created (trace s0)"
      and lt: "\<forall>t \<in> set ts. rank t < 4" by (auto simp: race_inv_def)
    from rs None consider
      (absent) "m_database s' k = None" "created (trace s') = created (trace s)"
        "rank t' < 4 \<or> t' = ts ! i"
    | (inserted) p where "m_database s' k = Some p" "heap s' p \<noteq> None"
        "created (trace s') = Suc (created (trace s))" "t' = returned (Some p)"
      by (auto simp: race_step_def)
    then show ?thesis
    proof cases
      case absent
      from absent(3) lt mem have "rank t' < 4" by auto
      with lt sub_set have "\<forall>x \<in> set (ts[i := t']). rank x < 4" by blast
      moreover from ok ok' sub_set have "\<forall>x \<in> set (ts[i := t']). ?ok x" by blast
      ultimately show ?thesis using rs hs bs absent(1,2) cr
        by (simp add: race_inv_def race_step_def)
    next
      case inserted
      from inserted(4) lt sub_set
      have "\<forall>x \<in> set (ts[i := t']). rank x = 4 \<longrightarrow> x = returned (Some p)"
        by fastforce
      moreover from ok ok' sub_set have "\<forall>x \<in> set (ts[i := t']). ?ok x" by blast
      ultimately show ?thesis using rs hs bs inserted(1-3) cr
        by (simp add: race_inv_def race_step_def)
    qed
  next
    case (Some p)
    with inv have cr: "created (trace s) = Suc (created (trace s0))"
      and ret: "\<forall>t \<in> set ts. rank t = 4 \<longrightarrow> t = returned (Some p)"
      by (auto simp: race_inv_def)
    from rs Some have n: "m_database s' k = Some p" and hp: "heap s' p \<noteq> None"
      and c': "created (trace s') = created (trace s)"
      and r: "rank t' = 4 \<longrightarrow> t' = returned (Some p) \<or> t' = ts ! i"
      by (simp_all add: race_step_def)
    from r ret mem have "rank t' = 4 \<longrightarrow> t' = returned (Some p)" by auto
    with ret sub_set have "\<forall>x \<in> set (ts[i := t']). rank x = 4 \<longrightarrow> x = returned (Some p)"
      by blast
    moreover from ok ok' sub_set have "\<forall>x \<in> set (ts[i := t']). ?ok x" by blast
    ultimately show ?thesis using rs hs bs n hp c' cr
      by (simp add: race_inv_def race_step_def)
  qed
  moreover from rs have "min 4 (Suc (rank (ts ! i))) \<le> rank t'" by (simp add: race_step_def)
  ultimately show ?thesis using st by blast
qed

lemma run_race:
  assumes c: "constructible E k a s0"
  shows "race_inv E k a s0 ts s \<Longrightarrow>
     \<exists>ts' s'. run E sched (ts, s) = Inr (ts', s') \<and> race_inv E k a s0 ts' s' \<and>
       length ts' = length ts \<and>
       (\<forall>i < length ts. min 4 (rank (ts ! i) + count_list sched i) \<le> rank (ts' ! i))"
proof (induction sched arbitrary: ts s)
  case Nil
  then show ?case by simp
next
  case (Cons j sched)
  show ?case
  proof (cases "j < length ts")
    case False
    then have st: "sched_step E j (ts, s) = Inr (ts, s)" by (simp add: sched_step_def)
    from Cons.IH [OF Cons.prems] obtain ts' s' where
      r: "run E sched (ts, s) = Inr (ts', s')" and inv: "race_inv E k a s0 ts' s'"
      and len: "length ts' = length ts"
      and rk: "\<forall>i < length ts. min 4 (rank (ts ! i) + count_list sched i) \<le> rank (ts' ! i)"
      by blast
    from False rk have "\<forall>i < length ts.
        min 4 (rank (ts ! i) + count_list (j # sched) i) \<le> rank (ts' ! i)" by auto
    with st r inv len show ?thesis by simp
  next
    case True
    from thread_step_race [OF c Cons.prems True] obtain t' s1 where
      st: "thread_step E (ts ! j) s = Inr (t', s1)" and inv1: "race_inv E k a s0 (ts[j := t']) s1"
      and up: "min 4 (Suc (rank (ts ! j))) \<le> rank t'" by blast
    from True st have ss: "sched_step E j (ts, s) = Inr (ts[j := t'], s1)"
      by (simp add: sched_step_def)
    from Cons.IH [OF inv1] obtain ts' s' where
      r: "run E sched (ts[j := t'], s1) = Inr (ts', s')" and inv: "race_inv E k a s0 ts' s'"
      and len: "length ts' = length ts"
      and rk: "\<forall>i < length ts.
          min 4 (rank (ts[j := t'] ! i) + count_list sched i) \<le> rank (ts' ! i)"
      by auto
    have "\<forall>i < length ts. min 4 (rank (ts ! i) + count_list (j # sched) i) \<le> rank (ts' ! i)"
    proof (intro allI impI)
      fix i assume i: "i < length ts"
      show "min 4 (rank (ts ! i) + count_list (j # sched) i) \<le> rank (ts' ! i)"
      proof (cases "i = j")
        case True
        with rk i have "min 4 (rank t' + count_list sched j) \<le> rank (ts' ! j)" by auto
        with up True show ?thesis by auto
      next
        case False
        with rk i show ?thesis by auto
      qed
    qed
    with ss r inv len show ?thesis by simp
  qed
qed

text \<open>
  At every point of every schedule, finished or not, at most one create function call
  has been made, and the threads that have returned have returned the instance of the
  table.
\<close>

lemma race_never_constructs_twice:
  assumes "constructible E k a s"
  shows "\<exists>ts' s'. run E sched (replicate N (at_entry k a), s) = Inr (ts', s') \<and>
           created (trace s') \<le> Suc (created (trace s)) \<and>
           (\<forall>r. returned r \<in> set ts' \<longrightarrow> r \<noteq> None \<and> m_database s' k = r)"
proof -
  from assms have "race_inv E k a s (replicate N (at_entry k a)) s"
    by (simp add: race_inv_def constructible_def)
  from run_race [OF assms this, of sched] obtain ts' s' where
    r: "run E sched (replicate N (at_entry k a), s) = Inr (ts', s')"
    and inv: "race_inv E k a s ts' s'" by blast
  from inv have "created (trace s') \<le> Suc (created (trace s))"
    by (auto simp: race_inv_def split: option.splits)
  moreover from inv have "\<forall>r. returned r \<in> set ts' \<longrightarrow> r \<noteq> None \<and> m_database s' k = r"
    by (cases "m_database s' k") (auto simp: race_inv_def)
  ultimately show ?thesis using r by blast
qed

text \<open>
  Claim C1. \<open>N\<close> threads call \<open>FindOrCreate(k, a)\<close> for a valid key that is not in the
  table, with an asset that is loaded or loads, is of the base asset type, and has a
  handler whose create function returns an instance for it. However their sections
  interleave, once every thread has run its four sections, exactly one create function
  call has been made, and all \<open>N\<close> threads have returned the same instance, the one
  the table holds for \<open>k\<close>.
\<close>

theorem concurrent_FindOrCreate_constructs_once:
  assumes "IsValid E k" and "m_database s k = None"
    and "IsReady (fst (FindOrCreate_load E a s))"
    and "azrtti_istypeof E (m_baseAssetType s) (Get (fst (FindOrCreate_load E a s)))"
    and "m_handlers s (GetType (fst (FindOrCreate_load E a s))) = Some h"
    and "m_createFunction h = Some c"
    and "c (Get (fst (FindOrCreate_load E a s))) = Some obj"
    and "0 < N" and "\<forall>i < N. 4 \<le> count_list sched i"
  shows "\<exists>p s'. run E sched (replicate N (at_entry k a), s) =
                  Inr (replicate N (returned (Some p)), s') \<and>
           created (trace s') = Suc (created (trace s)) \<and>
           m_database s' k = Some p"
proof -
  let ?ts = "replicate N (at_entry k a)"
  from assms(1-7) have c: "constructible E k a s" by (auto simp: constructible_def)
  from assms(2) have "race_inv E k a s ?ts s" by (simp add: race_inv_def)
  from run_race [OF c this, of sched] obtain ts' s' where
    r: "run E sched (?ts, s) = Inr (ts', s')" and inv: "race_inv E k a s ts' s'"
    and len: "length ts' = N"
    and rk: "\<forall>i < N. min 4 (rank (?ts ! i) + count_list sched i) \<le> rank (ts' ! i)"
    by auto
  have all4: "\<forall>i < N. rank (ts' ! i) = 4"
  proof (intro allI impI)
    fix i assume i: "i < N"
    with rk assms(9) have "4 \<le> rank (ts' ! i)" by auto
    with rank_le_4 [of "ts' ! i"] show "rank (ts' ! i) = 4" by simp
  qed
  from assms(8) len have m0: "ts' ! 0 \<in> set ts'" by simp
  from all4 assms(8) have r0: "rank (ts' ! 0) = 4" by simp
  obtain p where p: "m_database s' k = Some p"
  proof (cases "m_database s' k")
    case None
    with inv m0 have "rank (ts' ! 0) < 4" by (auto simp: race_inv_def)
    with r0 show ?thesis by simp
  next
    case (Some p)
    then show ?thesis by (rule that)
  qed
  with inv have cr: "created (trace s') = Suc (created (trace s))"
    and ret: "\<forall>t \<in> set ts'. rank t = 4 \<longrightarrow> t = returned (Some p)"
    by (auto simp: race_inv_def)
  have "ts' = replicate N (returned (Some p))"
  proof (rule nth_equalityI)
    show "length ts' = length (replicate N (returned (Some p)))" using len by simp
  next
    fix i assume "i < length ts'"
    with len all4 ret show "ts' ! i = replicate N (returned (Some p)) ! i" by simp
  qed
  with r cr p show ?thesis by blast
qed

theorem concurrent_FindOrCreate_constructs_once_witness:
  "\<exists>p s'. run Env0 [0, 1, 2, 2, 1, 0, 0, 2, 1, 1, 0, 2]
             (replicate 3 (at_entry 3 Asset0), Database0) =
             Inr (replicate 3 (returned (Some p)), s') \<and>
          created (trace s') = Suc (created (trace Database0)) \<and>
          m_database s' 3 = Some p"
proof -
  have aL: "fst (FindOrCreate_load Env0 Asset0 Database0) =
      \<lparr>GetId = 5, GetType = 6, IsReady = True, Get = 6\<rparr>"
    by (simp add: FindOrCreate_load_def Asset_fields Env0_fields)
  have h1: "IsValid Env0 3" by (simp add: Env0_fields)
  have h2: "m_database Database0 3 = None" by (simp add: Database0_fields)
  have h3: "IsReady (fst (FindOrCreate_load Env0 Asset0 Database0))" by (simp add: aL)
  have h4: "azrtti_istypeof Env0 (m_baseAssetType Database0)
      (Get (fst (FindOrCreate_load Env0 Asset0 Database0)))"
    by (simp add: aL Env0_fields Database0_fields)
  have h5: "m_handlers Database0 (GetType (fst (FindOrCreate_load Env0 Asset0 Database0))) =
      Some Handler0"
    by (simp add: aL Database0_fields)
  have h6: "m_createFunction Handler0 = Some (\<lambda>d. if d = 26 then None else Some Instance0)"
    by (simp add: Handler0_def)
  have h7: "(\<lambda>d. if d = 26 then None else Some Instance0)
      (Get (fst (FindOrCreate_load Env0 Asset0 Database0))) = Some Instance0"
    by (simp add: aL)
  have h8: "0 < (3::nat)" by simp
  have h9: "\<forall>i < 3. 4 \<le> count_list [0, 1, 2, 2, 1, 0, 0, 2, 1, 1, 0, 2::nat] i"
    by (simp add: All_less_Suc eval_nat_numeral)
  show ?thesis
    by (rule concurrent_FindOrCreate_constructs_once [OF h1 h2 h3 h4 h5 h6 h7 h8 h9])
qed

end
